theory Spec2Isabelle
  imports Main
begin

section \<open>Python values, exceptions and the answer context\<close>

text \<open>
  The answers of a questionnaire are the raw values of the widgets: \<open>None\<close>, booleans,
  integers, strings and lists of values. A scoring function written in Python may also
  return tuples and dictionaries. Floating-point answers are not modelled.
  A Python \<open>str\<close> is modelled as a \<open>string\<close> whose characters are code points below
  256, so the French messages of the program are written with \<open>CHR 0xE9\<close> and the like.
\<close>

datatype pyval =
    VNone
  | VBool bool
  | VInt int
  | VStr string
  | VList "pyval list"
  | VTuple "pyval list"
  | VDict "(string \<times> pyval) list"

text \<open>Exceptions carry the text that \<open>str(e)\<close> returns.\<close>

datatype exn =
    RuntimeError string
  | ValueError string
  | TypeError string
  | IndexError string
  | NameError string
  | SyntaxError string
  | AttributeError string
  | OtherError string

fun exn_str :: "exn \<Rightarrow> string" where
  "exn_str (RuntimeError m) = m"
| "exn_str (ValueError m) = m"
| "exn_str (TypeError m) = m"
| "exn_str (IndexError m) = m"
| "exn_str (NameError m) = m"
| "exn_str (SyntaxError m) = m"
| "exn_str (AttributeError m) = m"
| "exn_str (OtherError m) = m"

text \<open>Python's truth value of an object, \<open>bool(v)\<close>.\<close>

fun py_bool :: "pyval \<Rightarrow> bool" where
  "py_bool VNone = False"
| "py_bool (VBool b) = b"
| "py_bool (VInt i) = (i \<noteq> 0)"
| "py_bool (VStr s) = (s \<noteq> [])"
| "py_bool (VList xs) = (xs \<noteq> [])"
| "py_bool (VTuple xs) = (xs \<noteq> [])"
| "py_bool (VDict kvs) = (kvs \<noteq> [])"

text \<open>
  The context is the dictionary from variable names to the current widget values.
  Python's builtin \<open>eval(condition, {"__builtins__": {}}, context)\<close> is not code of the
  program: every function that evaluates a condition takes it as the parameter
  \<open>pyeval\<close>, a function of the expression text and the context that returns the value
  of the expression or the exception raised.
\<close>

type_synonym pycontext = "string \<rightharpoonup> pyval"

type_synonym evaluator = "string \<Rightarrow> pycontext \<Rightarrow> exn + pyval"

text \<open>
  Reading \<open>xs[i]\<close> in Python: positions from \<open>-len(xs)\<close> to \<open>-1\<close> are read from the
  end of the sequence, and any position outside \<open>[-len(xs), len(xs))\<close> raises.
\<close>

definition py_index :: "'a list \<Rightarrow> int \<Rightarrow> exn + 'a" where
  "py_index xs i =
     (if 0 \<le> i \<and> i < int (length xs) then Inr (xs ! nat i)
      else if i < 0 \<and> - int (length xs) \<le> i then Inr (xs ! nat (int (length xs) + i))
      else Inl (IndexError ''index out of range''))"

text \<open>Python slicing \<open>xs[:k]\<close>: a negative bound counts from the end.\<close>

definition py_slice_to :: "'a list \<Rightarrow> int \<Rightarrow> 'a list" where
  "py_slice_to xs k =
     (if 0 \<le> k then take (nat k) xs else take (nat (int (length xs) + k)) xs)"

section \<open>The question model\<close>

text \<open>
  A question is a dictionary loaded from the YAML file. The optional keys are options:
  \<open>None\<close> is the absent key. \<open>widget_args\<close> is itself a dictionary, whose key
  \<open>default\<close> declares a default value. The conditions and the messages are texts; the
  field \<open>question_text\<close> is the key \<open>question\<close>. The questions are taken in the order
  in which the interface holds them, sorted by their key \<open>order\<close>.
\<close>

record question =
  variable :: string
  question_text :: string
  widget :: string
  widget_args :: "(string \<times> pyval) list option"
  skip_if :: "string option"
  valid_if :: "string option"
  invalid_message :: "string option"

section \<open>Condition evaluation (logic.py)\<close>

definition skip_if_failure :: "string \<Rightarrow> exn \<Rightarrow> string" where
  "skip_if_failure condition e =
     [CHR 0xC9] @ ''chec de l'' @ [CHR 0x27, CHR 0xE9] @ ''valuation de la condition ''
       @ [CHR 0x27] @ condition @ [CHR 0x27] @ '': '' @ exn_str e"

definition valid_if_failure :: "string \<Rightarrow> exn \<Rightarrow> string" where
  "valid_if_failure condition e =
     [CHR 0xC9] @ ''chec de l'' @ [CHR 0x27, CHR 0xE9]
       @ ''valuation de la condition valid_if ''
       @ [CHR 0x27] @ condition @ [CHR 0x27] @ '': '' @ exn_str e"

definition evaluate_skip_if :: "evaluator \<Rightarrow> string \<Rightarrow> pycontext \<Rightarrow> exn + bool" where
  "evaluate_skip_if pyeval condition ctx =
     (case pyeval condition ctx of
        Inr v \<Rightarrow> Inr (py_bool v)
      | Inl e \<Rightarrow> Inl (RuntimeError (skip_if_failure condition e)))"

definition evaluate_valid_if :: "evaluator \<Rightarrow> string \<Rightarrow> pycontext \<Rightarrow> exn + bool" where
  "evaluate_valid_if pyeval condition ctx =
     (case pyeval condition ctx of
        Inr v \<Rightarrow> Inr (py_bool v)
      | Inl e \<Rightarrow> Inl (RuntimeError (valid_if_failure condition e)))"

section \<open>Navigation (logic.py)\<close>

text \<open>
  The \<open>while\<close> loop of \<open>find_next_valid_question\<close>. The direction is any integer, as in
  the source; with a direction of 0 the loop may run forever, so the loop is a partial
  function and \<open>None\<close> stands for a run that does not return.
\<close>

partial_function (option) find_next_loop ::
  "evaluator \<Rightarrow> question list \<Rightarrow> pycontext \<Rightarrow> int \<Rightarrow> int \<Rightarrow> (exn + int) option"
where
  "find_next_loop pyeval questions ctx direction idx =
     (if 0 \<le> idx \<and> idx < int (length questions) then
        (case skip_if (questions ! nat idx) of
           None \<Rightarrow> Some (Inr idx)
         | Some condition \<Rightarrow>
             (case evaluate_skip_if pyeval condition ctx of
                Inl e \<Rightarrow> Some (Inl e)
              | Inr skip \<Rightarrow>
                  if \<not> skip then Some (Inr idx)
                  else find_next_loop pyeval questions ctx direction (idx + direction)))
      else Some (Inr (if int (length questions) \<le> idx then idx else 0)))"

declare find_next_loop.simps [code]

definition find_next_valid_question ::
  "evaluator \<Rightarrow> int \<Rightarrow> question list \<Rightarrow> pycontext \<Rightarrow> int \<Rightarrow> (exn + int) option"
where
  "find_next_valid_question pyeval current_idx questions ctx direction =
     find_next_loop pyeval questions ctx direction (current_idx + direction)"

text \<open>
  A question is eligible when it has no \<open>skip_if\<close> or its \<open>skip_if\<close> evaluates false.
\<close>

definition eligible :: "evaluator \<Rightarrow> pycontext \<Rightarrow> question \<Rightarrow> bool" where
  "eligible pyeval ctx q =
     (case skip_if q of
        None \<Rightarrow> True
      | Some condition \<Rightarrow> evaluate_skip_if pyeval condition ctx = Inr False)"

definition skipped :: "evaluator \<Rightarrow> pycontext \<Rightarrow> question \<Rightarrow> bool" where
  "skipped pyeval ctx q =
     (case skip_if q of
        None \<Rightarrow> False
      | Some condition \<Rightarrow> evaluate_skip_if pyeval condition ctx = Inr True)"

section \<open>The display projection (gui.py)\<close>

text \<open>
  \<open>update_question_display\<close> returns a dictionary from interface components to
  updates. The row and the widget of a question are found through the question's
  variable (\<open>widgets[q["variable"]]\<close>), so the updates of rows and widgets are maps
  keyed by variable: a row update sets the visibility, a widget update sets the
  interactivity and the value. A component without an entry is left as it is on the
  screen. The entries of the result panel, of the PDF button and of the error box are
  only added by \<open>go_next\<close>; they carry an optional new value and the visibility.

  The label of the next button has three forms: the progress \<open>Question c / t\<close>, the
  plain label shown when no question is eligible, and the label of the finished
  questionnaire. They are the constructors of \<open>progress_label\<close>.
\<close>

datatype progress_label = ProgressLabel nat nat | PlainLabel | DoneLabel

record updates =
  rows :: "string \<rightharpoonup> bool"
  widget_updates :: "string \<rightharpoonup> bool \<times> pyval"
  prev_btn :: bool
  next_btn :: "bool \<times> progress_label"
  current_question_idx :: int
  result_output :: "(string option \<times> bool) option"
  pdf_download :: "(string option \<times> bool) option"
  error_output :: "(string option \<times> bool) option"

text \<open>
  The loop \<open>for i, q in enumerate(questions): context[q["variable"]] = args[i]\<close>;
  \<open>args[i]\<close> raises when fewer values than questions are passed.
\<close>

fun build_context :: "question list \<Rightarrow> pyval list \<Rightarrow> pycontext \<Rightarrow> exn + pycontext" where
  "build_context [] args ctx = Inr ctx"
| "build_context (q # qs) [] ctx = Inl (IndexError ''tuple index out of range'')"
| "build_context (q # qs) (a # args) ctx = build_context qs args (ctx(variable q \<mapsto> a))"

text \<open>
  The loop that finds the question to display. It reads the condition with
  \<open>q.get("skip_if", None)\<close> and stops on \<open>not condition\<close>, which holds for an absent
  key and for an empty text.
\<close>

function display_loop :: "evaluator \<Rightarrow> question list \<Rightarrow> pycontext \<Rightarrow> int \<Rightarrow> exn + int" where
  "display_loop pyeval questions ctx display_idx =
     (if 0 \<le> display_idx \<and> display_idx < int (length questions) then
        (case skip_if (questions ! nat display_idx) of
           None \<Rightarrow> Inr display_idx
         | Some condition \<Rightarrow>
             if condition = [] then Inr display_idx
             else (case evaluate_skip_if pyeval condition ctx of
                     Inl e \<Rightarrow> Inl e
                   | Inr skip \<Rightarrow>
                       if \<not> skip then Inr display_idx
                       else display_loop pyeval questions ctx (display_idx + 1)))
      else Inr display_idx)"
  by pat_completeness auto
termination
  by (relation "measure (\<lambda>(pyeval, questions, ctx, display_idx).
                   nat (int (length questions) - display_idx))") auto

text \<open>The test \<open>is_condition_met\<close> of the loop over the rows.\<close>

definition is_condition_met :: "evaluator \<Rightarrow> pycontext \<Rightarrow> question \<Rightarrow> exn + bool" where
  "is_condition_met pyeval ctx q =
     (case skip_if q of
        None \<Rightarrow> Inr True
      | Some condition \<Rightarrow>
          if condition = [] then Inr True
          else (case evaluate_skip_if pyeval condition ctx of
                  Inl e \<Rightarrow> Inl e
                | Inr skip \<Rightarrow> Inr (\<not> skip)))"

text \<open>
  The loop \<open>for i in range(start_idx, end_idx)\<close> over the rows, on the list of the
  indices of the range. \<open>args[i]\<close> is in range here, since the context has been built.
\<close>

fun update_rows ::
  "evaluator \<Rightarrow> pycontext \<Rightarrow> question list \<Rightarrow> pyval list \<Rightarrow> int \<Rightarrow> int \<Rightarrow> nat list
     \<Rightarrow> updates \<Rightarrow> exn + updates"
where
  "update_rows pyeval ctx questions args current_idx display_idx [] u = Inr u"
| "update_rows pyeval ctx questions args current_idx display_idx (i # idxs) u =
     (case is_condition_met pyeval ctx (questions ! i) of
        Inl e \<Rightarrow> Inl e
      | Inr met \<Rightarrow>
          (let is_visible = (if int i \<le> current_idx then met else False);
               is_interactive =
                 (if int i \<le> current_idx then (int i = display_idx \<and> met) else False)
           in update_rows pyeval ctx questions args current_idx display_idx idxs
                (u\<lparr>rows := (rows u)(variable (questions ! i) \<mapsto> is_visible),
                   widget_updates := (widget_updates u)
                     (variable (questions ! i) \<mapsto> (is_interactive, args ! i))\<rparr>)))"

text \<open>
  The sums \<open>total_valid\<close> and \<open>current_valid\<close>: the number of questions of a list that
  have no \<open>skip_if\<close> key or whose \<open>skip_if\<close> evaluates false. The first evaluation that
  raises ends the sum.
\<close>

fun count_valid :: "evaluator \<Rightarrow> pycontext \<Rightarrow> question list \<Rightarrow> exn + nat" where
  "count_valid pyeval ctx [] = Inr 0"
| "count_valid pyeval ctx (q # qs) =
     (case (case skip_if q of
              None \<Rightarrow> Inr True
            | Some condition \<Rightarrow>
                (case evaluate_skip_if pyeval condition ctx of
                   Inl e \<Rightarrow> Inl e
                 | Inr skip \<Rightarrow> Inr (\<not> skip))) of
        Inl e \<Rightarrow> Inl e
      | Inr valid \<Rightarrow>
          (case count_valid pyeval ctx qs of
             Inl e \<Rightarrow> Inl e
           | Inr n \<Rightarrow> Inr ((if valid then 1 else 0) + n)))"

definition total_valid :: "evaluator \<Rightarrow> pycontext \<Rightarrow> question list \<Rightarrow> exn + nat" where
  "total_valid pyeval ctx questions = count_valid pyeval ctx questions"

definition current_valid :: "evaluator \<Rightarrow> pycontext \<Rightarrow> question list \<Rightarrow> int \<Rightarrow> exn + nat" where
  "current_valid pyeval ctx questions display_idx =
     count_valid pyeval ctx (py_slice_to questions (display_idx + 1))"

definition no_updates :: updates where
  "no_updates =
     \<lparr>rows = Map.empty, widget_updates = Map.empty, prev_btn = False,
      next_btn = (False, PlainLabel), current_question_idx = 0,
      result_output = None, pdf_download = None, error_output = None\<rparr>"

definition update_question_display ::
  "evaluator \<Rightarrow> question list \<Rightarrow> int \<Rightarrow> pyval list \<Rightarrow> exn + updates"
where
  "update_question_display pyeval questions current_idx args =
     (case build_context questions args Map.empty of
        Inl e \<Rightarrow> Inl e
      | Inr ctx \<Rightarrow>
     (case display_loop pyeval questions ctx current_idx of
        Inl e \<Rightarrow> Inl e
      | Inr display_idx \<Rightarrow>
     (let start_idx = max 0 (display_idx - 1);
          end_idx = length questions
      in
     (case update_rows pyeval ctx questions args current_idx display_idx
             [nat start_idx ..< end_idx] no_updates of
        Inl e \<Rightarrow> Inl e
      | Inr u \<Rightarrow>
     (let prev_visible = (0 < display_idx \<and> display_idx < int (length questions));
          next_visible = (display_idx < int (length questions))
      in
     (case total_valid pyeval ctx questions of
        Inl e \<Rightarrow> Inl e
      | Inr n_total \<Rightarrow>
     (case current_valid pyeval ctx questions display_idx of
        Inl e \<Rightarrow> Inl e
      | Inr n_current \<Rightarrow>
          Inr (u\<lparr>prev_btn := prev_visible,
                 next_btn :=
                   (next_visible,
                    if display_idx < int (length questions)
                    then (if 0 < n_total then ProgressLabel n_current n_total else PlainLabel)
                    else DoneLabel),
                 current_question_idx := display_idx\<rparr>))))))))"

text \<open>
  The interface keeps the visibility of a row that a returned dictionary does not
  mention. \<open>apply_rows\<close> is the screen after the updates: \<open>screen v\<close> tells whether the row
  of the question with variable \<open>v\<close> is visible.
\<close>

definition apply_rows :: "(string \<Rightarrow> bool) \<Rightarrow> updates \<Rightarrow> string \<Rightarrow> bool" where
  "apply_rows screen u v = (case rows u v of None \<Rightarrow> screen v | Some visible \<Rightarrow> visible)"

section \<open>Scoring (scoring.py)\<close>

text \<open>
  The scoring function is user code, run by Python's \<open>exec\<close> or by R through rpy2; both
  are parameters of the model, as is Python's \<open>str\<close>. The result of the R function is
  an R value as rpy2 hands it to Python: \<open>NULL\<close>, an atomic vector, whose elements
  are read as Python scalars, or a list with (possibly empty) names. \<open>pyobj\<close> is a
  Python object or such an R value, with the operations the program applies to the
  result: \<open>len\<close>, indexing, iteration, \<open>rx2\<close> and \<open>bool\<close>.
\<close>

datatype rvalue = RNull | RAtomic "pyval list" | RList "(string \<times> rvalue) list"

datatype pyobj = Py pyval | R rvalue

fun obj_len :: "pyobj \<Rightarrow> exn + nat" where
  "obj_len (Py (VStr s)) = Inr (length s)"
| "obj_len (Py (VList xs)) = Inr (length xs)"
| "obj_len (Py (VTuple xs)) = Inr (length xs)"
| "obj_len (Py (VDict kvs)) = Inr (length kvs)"
| "obj_len (Py v) = Inl (TypeError ''object has no len()'')"
| "obj_len (R RNull) = Inr 0"
| "obj_len (R (RAtomic xs)) = Inr (length xs)"
| "obj_len (R (RList kvs)) = Inr (length kvs)"

fun obj_getitem :: "pyobj \<Rightarrow> nat \<Rightarrow> exn + pyobj" where
  "obj_getitem (Py (VStr s)) i =
     (if i < length s then Inr (Py (VStr [s ! i])) else Inl (IndexError ''index out of range''))"
| "obj_getitem (Py (VList xs)) i =
     (if i < length xs then Inr (Py (xs ! i)) else Inl (IndexError ''index out of range''))"
| "obj_getitem (Py (VTuple xs)) i =
     (if i < length xs then Inr (Py (xs ! i)) else Inl (IndexError ''index out of range''))"
| "obj_getitem (Py (VDict kvs)) i = Inl (OtherError ''KeyError'')"
| "obj_getitem (Py v) i = Inl (TypeError ''object is not subscriptable'')"
| "obj_getitem (R RNull) i = Inl (IndexError ''index out of range'')"
| "obj_getitem (R (RAtomic xs)) i =
     (if i < length xs then Inr (Py (xs ! i)) else Inl (IndexError ''index out of range''))"
| "obj_getitem (R (RList kvs)) i =
     (if i < length kvs then Inr (R (snd (kvs ! i)))
      else Inl (IndexError ''index out of range''))"

fun obj_iter :: "pyobj \<Rightarrow> exn + pyobj list" where
  "obj_iter (Py (VStr s)) = Inr (map (\<lambda>c. Py (VStr [c])) s)"
| "obj_iter (Py (VList xs)) = Inr (map Py xs)"
| "obj_iter (Py (VTuple xs)) = Inr (map Py xs)"
| "obj_iter (Py (VDict kvs)) = Inr (map (\<lambda>kv. Py (VStr (fst kv))) kvs)"
| "obj_iter (Py v) = Inl (TypeError ''object is not iterable'')"
| "obj_iter (R RNull) = Inr []"
| "obj_iter (R (RAtomic xs)) = Inr (map Py xs)"
| "obj_iter (R (RList kvs)) = Inr (map (\<lambda>kv. R (snd kv)) kvs)"

text \<open>\<open>rx2(name)\<close> reads the element of an R list by name; a missing name gives \<open>NULL\<close>.\<close>

fun obj_rx2 :: "pyobj \<Rightarrow> string \<Rightarrow> exn + pyobj" where
  "obj_rx2 (R (RList kvs)) name =
     (case map_of kvs name of None \<Rightarrow> Inr (R RNull) | Some v \<Rightarrow> Inr (R v))"
| "obj_rx2 (R RNull) name = Inr (R RNull)"
| "obj_rx2 (R (RAtomic xs)) name = Inl (OtherError ''subscript out of bounds'')"
| "obj_rx2 (Py v) name = Inl (AttributeError ''object has no attribute rx2'')"

fun obj_bool :: "pyobj \<Rightarrow> bool" where
  "obj_bool (Py v) = py_bool v"
| "obj_bool (R RNull) = False"
| "obj_bool (R (RAtomic xs)) = (xs \<noteq> [])"
| "obj_bool (R (RList kvs)) = (kvs \<noteq> [])"

fun py_type_name :: "pyval \<Rightarrow> string" where
  "py_type_name VNone = ''<class '' @ [CHR 0x27] @ ''NoneType'' @ [CHR 0x27] @ ''>''"
| "py_type_name (VBool b) = ''<class '' @ [CHR 0x27] @ ''bool'' @ [CHR 0x27] @ ''>''"
| "py_type_name (VInt i) = ''<class '' @ [CHR 0x27] @ ''int'' @ [CHR 0x27] @ ''>''"
| "py_type_name (VStr s) = ''<class '' @ [CHR 0x27] @ ''str'' @ [CHR 0x27] @ ''>''"
| "py_type_name (VList xs) = ''<class '' @ [CHR 0x27] @ ''list'' @ [CHR 0x27] @ ''>''"
| "py_type_name (VTuple xs) = ''<class '' @ [CHR 0x27] @ ''tuple'' @ [CHR 0x27] @ ''>''"
| "py_type_name (VDict kvs) = ''<class '' @ [CHR 0x27] @ ''dict'' @ [CHR 0x27] @ ''>''"

type_synonym scoring_result = "string \<times> string list list \<times> (string \<times> pyval) list"

text \<open>
  The conversion of the inputs for R: \<open>None\<close> becomes \<open>NULL\<close>; booleans and strings
  pass through a vector of length one and come back as they were.
\<close>

definition r_inputs :: "pycontext \<Rightarrow> string \<rightharpoonup> pyobj" where
  "r_inputs inputs key =
     (case inputs key of
        None \<Rightarrow> None
      | Some VNone \<Rightarrow> Some (R RNull)
      | Some v \<Rightarrow> Some (Py v))"

text \<open>The loop \<open>for i in range(len(table_list))\<close> of \<open>execute_scoring_r\<close>.\<close>

fun r_table_rows :: "(pyobj \<Rightarrow> string) \<Rightarrow> pyobj \<Rightarrow> nat list \<Rightarrow> exn + string list list" where
  "r_table_rows to_str table_list [] = Inr []"
| "r_table_rows to_str table_list (i # idxs) =
     (case obj_getitem table_list i of
        Inl e \<Rightarrow> Inl e
      | Inr row_vector \<Rightarrow>
          (case obj_iter row_vector of
             Inl e \<Rightarrow> Inl e
           | Inr vals \<Rightarrow>
               (case r_table_rows to_str table_list idxs of
                  Inl e \<Rightarrow> Inl e
                | Inr table_data \<Rightarrow> Inr (map to_str vals # table_data))))"

definition r_option :: "pyobj \<Rightarrow> string \<Rightarrow> exn + pyval" where
  "r_option options_list name =
     (case obj_rx2 options_list name of
        Inl e \<Rightarrow> Inl e
      | Inr v \<Rightarrow>
          (case obj_getitem v 0 of
             Inl e \<Rightarrow> Inl e
           | Inr b \<Rightarrow> Inr (VBool (obj_bool b))))"

definition execute_scoring_r ::
  "(pyobj \<Rightarrow> string) \<Rightarrow> (string \<Rightarrow> (string \<rightharpoonup> pyobj) \<Rightarrow> exn + rvalue) \<Rightarrow> string \<Rightarrow> pycontext
     \<Rightarrow> exn + scoring_result"
where
  "execute_scoring_r to_str r_call code inputs =
     (case r_call code (r_inputs inputs) of
        Inl e \<Rightarrow> Inl e
      | Inr result \<Rightarrow>
     (case obj_len (R result) of
        Inl e \<Rightarrow> Inl e
      | Inr n \<Rightarrow>
          if n \<noteq> 3 then
            Inl (ValueError
              (''R scoring function must return a list with 3 elements ''
               @ ''(markdown, table_data, options), got '' @ to_str (Py (VInt (int n)))))
          else
     (case obj_getitem (R result) 0 of
        Inl e \<Rightarrow> Inl e
      | Inr first \<Rightarrow>
     (case obj_getitem first 0 of
        Inl e \<Rightarrow> Inl e
      | Inr md \<Rightarrow>
     (case obj_getitem (R result) 1 of
        Inl e \<Rightarrow> Inl e
      | Inr table_list \<Rightarrow>
     (case obj_len table_list of
        Inl e \<Rightarrow> Inl e
      | Inr rows_n \<Rightarrow>
     (case r_table_rows to_str table_list [0 ..< rows_n] of
        Inl e \<Rightarrow> Inl e
      | Inr table_data \<Rightarrow>
     (case obj_getitem (R result) 2 of
        Inl e \<Rightarrow> Inl e
      | Inr options_list \<Rightarrow>
     (case r_option options_list ''include_md_in_pdf'' of
        Inl e \<Rightarrow> Inl e
      | Inr include_md \<Rightarrow>
     (case r_option options_list ''include_data_in_pdf'' of
        Inl e \<Rightarrow> Inl e
      | Inr include_data \<Rightarrow>
          Inr (to_str md, table_data,
               [(''include_md_in_pdf'', include_md),
                (''include_data_in_pdf'', include_data)])))))))))))"

text \<open>The comprehension \<open>[[str(val) for val in row] for row in table_data]\<close>.\<close>

fun str_rows :: "(pyobj \<Rightarrow> string) \<Rightarrow> pyval list \<Rightarrow> exn + string list list" where
  "str_rows to_str [] = Inr []"
| "str_rows to_str (row # table) =
     (case obj_iter (Py row) of
        Inl e \<Rightarrow> Inl e
      | Inr vals \<Rightarrow>
          (case str_rows to_str table of
             Inl e \<Rightarrow> Inl e
           | Inr table_data \<Rightarrow> Inr (map to_str vals # table_data)))"

text \<open>
  The loop \<open>for i, row in enumerate(table_data[1:], start=1)\<close> that compares the length
  of every row with the length of the headers.
\<close>

fun check_rows :: "(pyobj \<Rightarrow> string) \<Rightarrow> nat \<Rightarrow> nat \<Rightarrow> string list list \<Rightarrow> exn + unit" where
  "check_rows to_str header_len i [] = Inr ()"
| "check_rows to_str header_len i (row # table) =
     (if length row \<noteq> header_len then
        Inl (ValueError
          (''Row '' @ to_str (Py (VInt (int i))) @ '' has ''
           @ to_str (Py (VInt (int (length row)))) @ '' columns but headers have ''
           @ to_str (Py (VInt (int header_len))) @ '' columns''))
      else check_rows to_str header_len (Suc i) table)"

text \<open>
  The body of the \<open>try\<close> block of \<open>execute_scoring_python\<close>. \<open>py_exec code\<close> is the run of
  \<open>exec(code, namespace)\<close>: the exception raised, or the function \<open>scoring\<close> of the
  namespace when the code defines one.
\<close>

definition python_scoring_body ::
  "(pyobj \<Rightarrow> string) \<Rightarrow> (string \<Rightarrow> exn + (pycontext \<Rightarrow> exn + pyval) option) \<Rightarrow> string
     \<Rightarrow> pycontext \<Rightarrow> exn + scoring_result"
where
  "python_scoring_body to_str py_exec code inputs =
     (case py_exec code of
        Inl e \<Rightarrow> Inl e
      | Inr None \<Rightarrow>
          Inl (ValueError (''Fonction '' @ [CHR 0x27] @ ''scoring'' @ [CHR 0x27]
                 @ '' introuvable dans le code de scoring''))
      | Inr (Some scoring) \<Rightarrow>
     (case scoring inputs of
        Inl e \<Rightarrow> Inl e
      | Inr result \<Rightarrow>
     (case result of
        VTuple [markdown_str, table_data, pdf_options] \<Rightarrow>
          (case markdown_str of
             VStr md \<Rightarrow>
               (case table_data of
                  VList table \<Rightarrow>
                    (case pdf_options of
                       VDict options \<Rightarrow>
                         if length table = 0 then
                           Inl (ValueError ''Table data must have at least one row (headers)'')
                         else
                           (case str_rows to_str table of
                              Inl e \<Rightarrow> Inl e
                            | Inr rows_str \<Rightarrow>
                                (case check_rows to_str (length (hd rows_str)) 1 (tl rows_str) of
                                   Inl e \<Rightarrow> Inl e
                                 | Inr _ \<Rightarrow> Inr (md, rows_str, options)))
                     | _ \<Rightarrow>
                         Inl (ValueError
                           (''Third element of return tuple must be a dict (pdf_options), got ''
                            @ py_type_name pdf_options)))
                | _ \<Rightarrow>
                    Inl (ValueError
                      (''Second element of return tuple must be a list (table_data), got ''
                       @ py_type_name table_data)))
           | _ \<Rightarrow>
               Inl (ValueError
                 (''First element of return tuple must be a string (markdown), got ''
                  @ py_type_name markdown_str)))
      | _ \<Rightarrow>
          Inl (ValueError
            (''Python scoring function must return a tuple with 3 elements ''
             @ ''(markdown, table_data, options), got '' @ py_type_name result)))))"

definition execute_scoring_python ::
  "(pyobj \<Rightarrow> string) \<Rightarrow> (string \<Rightarrow> exn + (pycontext \<Rightarrow> exn + pyval) option) \<Rightarrow> string
     \<Rightarrow> pycontext \<Rightarrow> exn + scoring_result"
where
  "execute_scoring_python to_str py_exec code inputs =
     (case python_scoring_body to_str py_exec code inputs of
        Inl e \<Rightarrow>
          Inl (RuntimeError
            (''Erreur lors de l'' @ [CHR 0x27] @ ''ex'' @ [CHR 0xE9]
             @ ''cution du scoring Python: '' @ exn_str e))
      | Inr r \<Rightarrow> Inr r)"

definition execute_scoring ::
  "(pyobj \<Rightarrow> string) \<Rightarrow> (string \<Rightarrow> exn + (pycontext \<Rightarrow> exn + pyval) option)
     \<Rightarrow> (string \<Rightarrow> (string \<rightharpoonup> pyobj) \<Rightarrow> exn + rvalue)
     \<Rightarrow> string \<Rightarrow> string \<Rightarrow> pycontext \<Rightarrow> exn + scoring_result"
where
  "execute_scoring to_str py_exec r_call language code inputs =
     (if language = ''r'' then execute_scoring_r to_str r_call code inputs
      else if language = ''python'' then execute_scoring_python to_str py_exec code inputs
      else Inl (ValueError (''Langage de scoring non support'' @ [CHR 0xE9] @ '': ''
                            @ language)))"

text \<open>
  The contract of the scoring table: it has a header row and every row has the length
  of the header row.
\<close>

definition rectangular :: "string list list \<Rightarrow> bool" where
  "rectangular table =
     (case table of
        [] \<Rightarrow> False
      | header # data \<Rightarrow> list_all (\<lambda>row. length row = length header) data)"

section \<open>The flow controller (gui.py)\<close>

text \<open>
  What \<open>go_next\<close> and \<open>go_prev\<close> take from outside the program: Python's \<open>eval\<close> and
  \<open>str\<close>, the run of the scoring code in Python and in R, and the report generator
  \<open>generate_pdf_report\<close>, which receives the questions, the answers, the scoring
  result, the request of the client and the PDF options, and returns the path of the
  report or raises.
\<close>

record 'req runtime =
  rt_eval :: evaluator
  rt_str :: "pyobj \<Rightarrow> string"
  rt_exec :: "string \<Rightarrow> exn + (pycontext \<Rightarrow> exn + pyval) option"
  rt_r_call :: "string \<Rightarrow> (string \<rightharpoonup> pyobj) \<Rightarrow> exn + rvalue"
  rt_generate_pdf_report ::
    "question list \<Rightarrow> pycontext \<Rightarrow> string \<Rightarrow> string list list \<Rightarrow> 'req option
       \<Rightarrow> (string \<times> pyval) list \<Rightarrow> exn + string"

text \<open>
  Whitespace as \<open>str.strip()\<close> understands it, for code points below 256, and the test
  \<open>current_value.strip() == ""\<close>.
\<close>

definition is_space :: "char \<Rightarrow> bool" where
  "is_space c =
     (let n = (of_char c :: nat)
      in (9 \<le> n \<and> n \<le> 13) \<or> (28 \<le> n \<and> n \<le> 32) \<or> n = 133 \<or> n = 160)"

definition py_strip :: "string \<Rightarrow> string" where
  "py_strip s = rev (dropWhile is_space (rev (dropWhile is_space s)))"

fun is_empty :: "pyval \<Rightarrow> bool" where
  "is_empty VNone = True"
| "is_empty (VStr s) = (py_strip s = [])"
| "is_empty v = False"

definition has_default :: "question \<Rightarrow> bool" where
  "has_default q =
     (case widget_args q of
        None \<Rightarrow> False
      | Some args \<Rightarrow> map_of args ''default'' \<noteq> None)"

definition unanswered_warning :: "question \<Rightarrow> string" where
  "unanswered_warning q =
     ''Veuillez r'' @ [CHR 0xE9] @ ''pondre '' @ [CHR 0xE0]
       @ '' la question actuelle avant de continuer: '' @ question_text q"

definition generic_invalid_warning :: "question \<Rightarrow> string" where
  "generic_invalid_warning q =
     ''La r'' @ [CHR 0xE9] @ ''ponse '' @ [CHR 0xE0] @ '' la question actuelle n''
       @ [CHR 0x27] @ ''est pas valide: '' @ question_text q"

definition invalid_warning :: "question \<Rightarrow> string" where
  "invalid_warning q =
     (case invalid_message q of
        Some message \<Rightarrow> message
      | None \<Rightarrow> generic_invalid_warning q)"

definition validation_error_warning :: "exn \<Rightarrow> string" where
  "validation_error_warning e = ''Erreur lors de la validation: '' @ exn_str e"

text \<open>The \<open>try\<close> block of the terminal step: scoring, then the report.\<close>

definition scoring_and_report ::
  "'req runtime \<Rightarrow> question list \<Rightarrow> string \<Rightarrow> string \<Rightarrow> 'req option \<Rightarrow> pycontext
     \<Rightarrow> exn + string \<times> string"
where
  "scoring_and_report rt questions scoring_language scoring_code request inputs =
     (case execute_scoring (rt_str rt) (rt_exec rt) (rt_r_call rt)
             scoring_language scoring_code inputs of
        Inl e \<Rightarrow> Inl e
      | Inr (markdown_result, result_data, pdf_options) \<Rightarrow>
          (case rt_generate_pdf_report rt questions inputs markdown_result result_data
                  request pdf_options of
             Inl e \<Rightarrow> Inl e
           | Inr pdf_path \<Rightarrow> Inr (markdown_result, pdf_path)))"

text \<open>
  A run of \<open>go_next\<close> or \<open>go_prev\<close> yields the warnings shown to the user
  (\<open>gr.Warning\<close>) and then either returns the dictionary of updates or raises; \<open>None\<close>
  stands for a run that does not return.

  \<open>go_next_advance\<close> is the part of \<open>go_next\<close> that follows the two checks of the
  current answer: it finds the next question, projects the display and, at the end of
  the questionnaire, runs the scoring and the report.
\<close>

definition go_next_advance ::
  "'req runtime \<Rightarrow> question list \<Rightarrow> string \<Rightarrow> string \<Rightarrow> 'req option \<Rightarrow> int \<Rightarrow> pyval list
     \<Rightarrow> (string list \<times> (exn + updates)) option"
where
  "go_next_advance rt questions scoring_language scoring_code request current_idx args =
     (case build_context questions args Map.empty of
        Inl e \<Rightarrow> Some ([], Inl e)
      | Inr ctx \<Rightarrow>
     (case find_next_valid_question (rt_eval rt) current_idx questions ctx 1 of
        None \<Rightarrow> None
      | Some (Inl e) \<Rightarrow> Some ([], Inl e)
      | Some (Inr new_idx) \<Rightarrow>
     (case update_question_display (rt_eval rt) questions new_idx args of
        Inl e \<Rightarrow> Some ([], Inl e)
      | Inr u \<Rightarrow>
          if int (length questions) \<le> new_idx then
            (case scoring_and_report rt questions scoring_language scoring_code request ctx of
               Inr (markdown_result, pdf_path) \<Rightarrow>
                 Some ([], Inr (u\<lparr>result_output := Some (Some markdown_result, True),
                                  pdf_download := Some (Some pdf_path, True),
                                  error_output := Some (None, False)\<rparr>))
             | Inl e \<Rightarrow>
                 Some ([], Inr (u\<lparr>result_output := Some (None, False),
                                  pdf_download := Some (None, False),
                                  error_output := Some (Some (exn_str e), True)\<rparr>)))
          else
            Some ([], Inr (u\<lparr>result_output := Some (None, False),
                             pdf_download := Some (None, False),
                             error_output := Some (None, False)\<rparr>)))))"

definition go_next ::
  "'req runtime \<Rightarrow> question list \<Rightarrow> string \<Rightarrow> string \<Rightarrow> 'req option \<Rightarrow> int \<Rightarrow> pyval list
     \<Rightarrow> (string list \<times> (exn + updates)) option"
where
  "go_next rt questions scoring_language scoring_code request current_idx args =
     (case py_index args current_idx of
        Inl e \<Rightarrow> Some ([], Inl e)
      | Inr current_value \<Rightarrow>
     (case py_index questions current_idx of
        Inl e \<Rightarrow> Some ([], Inl e)
      | Inr current_question \<Rightarrow>
          if \<not> has_default current_question \<and> is_empty current_value then
            Some ([unanswered_warning current_question],
                  update_question_display (rt_eval rt) questions current_idx args)
          else
            (case valid_if current_question of
               None \<Rightarrow>
                 go_next_advance rt questions scoring_language scoring_code request
                   current_idx args
             | Some valid_if_condition \<Rightarrow>
                 (case build_context questions args Map.empty of
                    Inl e \<Rightarrow> Some ([], Inl e)
                  | Inr ctx \<Rightarrow>
                      (case evaluate_valid_if (rt_eval rt) valid_if_condition ctx of
                         Inl e \<Rightarrow>
                           Some ([validation_error_warning e],
                                 update_question_display (rt_eval rt) questions
                                   current_idx args)
                       | Inr is_valid \<Rightarrow>
                           if \<not> is_valid then
                             Some ([invalid_warning current_question],
                                   update_question_display (rt_eval rt) questions
                                     current_idx args)
                           else
                             go_next_advance rt questions scoring_language scoring_code
                               request current_idx args)))))"

definition go_prev ::
  "evaluator \<Rightarrow> question list \<Rightarrow> int \<Rightarrow> pyval list \<Rightarrow> (exn + updates) option"
where
  "go_prev pyeval questions current_idx args =
     (case build_context questions args Map.empty of
        Inl e \<Rightarrow> Some (Inl e)
      | Inr ctx \<Rightarrow>
          (case find_next_valid_question pyeval current_idx questions ctx (- 1) of
             None \<Rightarrow> None
           | Some (Inl e) \<Rightarrow> Some (Inl e)
           | Some (Inr new_idx) \<Rightarrow>
               Some (update_question_display pyeval questions new_idx args)))"

section \<open>A concrete evaluator for the scenarios\<close>

text \<open>
  The scenarios need the value of concrete conditions such as \<open>age >= 18\<close>.
  \<open>cmp_eval\<close> evaluates the comparisons \<open>name op literal\<close>: three words separated by
  single blanks, where \<open>op\<close> is one of \<open>==\<close>, \<open>!=\<close>, \<open><\<close>, \<open><=\<close>, \<open>>\<close>, \<open>>=\<close> and the
  literal is \<open>None\<close>, \<open>True\<close>, \<open>False\<close>, a decimal numeral or a quoted string without
  blanks, quotes or backslashes. On these it returns what Python's \<open>eval\<close> returns with
  the context as its only namespace. The empty text is a syntax error; every other text
  lies outside the fragment and is answered with an error as well.
\<close>

definition quote :: string where
  "quote = [CHR 0x27]"

fun split_blanks :: "string \<Rightarrow> string list" where
  "split_blanks [] = [[]]"
| "split_blanks (c # cs) =
     (if c = CHR '' '' then [] # split_blanks cs
      else (case split_blanks cs of
              [] \<Rightarrow> [[c]]
            | w # ws \<Rightarrow> (c # w) # ws))"

definition is_digit :: "char \<Rightarrow> bool" where
  "is_digit c = (48 \<le> (of_char c :: nat) \<and> (of_char c :: nat) \<le> 57)"

definition is_name_char :: "char \<Rightarrow> bool" where
  "is_name_char c =
     (let n = (of_char c :: nat)
      in (65 \<le> n \<and> n \<le> 90) \<or> (97 \<le> n \<and> n \<le> 122) \<or> n = 95 \<or> is_digit c)"

definition py_keywords :: "string list" where
  "py_keywords =
     [''False'', ''None'', ''True'', ''and'', ''as'', ''assert'', ''async'', ''await'',
      ''break'', ''class'', ''continue'', ''def'', ''del'', ''elif'', ''else'', ''except'',
      ''finally'', ''for'', ''from'', ''global'', ''if'', ''import'', ''in'', ''is'',
      ''lambda'', ''nonlocal'', ''not'', ''or'', ''pass'', ''raise'', ''return'', ''try'',
      ''while'', ''with'', ''yield'']"

definition is_name :: "string \<Rightarrow> bool" where
  "is_name w =
     (case w of
        [] \<Rightarrow> False
      | c # cs \<Rightarrow> \<not> is_digit c \<and> list_all is_name_char w \<and> w \<notin> set py_keywords)"

fun decimal_value :: "nat \<Rightarrow> string \<Rightarrow> nat" where
  "decimal_value acc [] = acc"
| "decimal_value acc (c # cs) = decimal_value (10 * acc + ((of_char c :: nat) - 48)) cs"

definition parse_literal :: "string \<Rightarrow> pyval option" where
  "parse_literal w =
     (if w = ''None'' then Some VNone
      else if w = ''True'' then Some (VBool True)
      else if w = ''False'' then Some (VBool False)
      else (case w of
              [] \<Rightarrow> None
            | c # cs \<Rightarrow>
                if (c = CHR 0x27 \<or> c = CHR 0x22) then
                  (if cs \<noteq> [] \<and> last cs = c \<and> c \<notin> set (butlast cs)
                      \<and> CHR 0x5C \<notin> set cs
                   then Some (VStr (butlast cs)) else None)
                else if list_all is_digit w \<and> (list_all (\<lambda>d. d = CHR ''0'') w \<or> c \<noteq> CHR ''0'')
                then Some (VInt (int (decimal_value 0 w)))
                else None))"

fun as_number :: "pyval \<Rightarrow> int option" where
  "as_number (VBool b) = Some (if b then 1 else 0)"
| "as_number (VInt i) = Some i"
| "as_number v = None"

fun str_less :: "string \<Rightarrow> string \<Rightarrow> bool" where
  "str_less [] [] = False"
| "str_less [] (y # ys) = True"
| "str_less (x # xs) [] = False"
| "str_less (x # xs) (y # ys) =
     ((of_char x :: nat) < of_char y \<or> (x = y \<and> str_less xs ys))"

text \<open>Equality and order of a value with the value of a literal.\<close>

definition py_equal :: "pyval \<Rightarrow> pyval \<Rightarrow> bool" where
  "py_equal a b =
     (case (as_number a, as_number b) of
        (Some x, Some y) \<Rightarrow> x = y
      | _ \<Rightarrow> a = b)"

definition py_less :: "pyval \<Rightarrow> pyval \<Rightarrow> exn + bool" where
  "py_less a b =
     (case (as_number a, as_number b) of
        (Some x, Some y) \<Rightarrow> Inr (x < y)
      | _ \<Rightarrow> (case (a, b) of
                (VStr s, VStr t) \<Rightarrow> Inr (str_less s t)
              | _ \<Rightarrow> Inl (TypeError ''comparison not supported between these types'')))"

definition compare_values :: "string \<Rightarrow> pyval \<Rightarrow> pyval \<Rightarrow> exn + pyval" where
  "compare_values opr a b =
     (if opr = ''=='' then Inr (VBool (py_equal a b))
      else if opr = ''!='' then Inr (VBool (\<not> py_equal a b))
      else if opr = ''<'' then map_sum id VBool (py_less a b)
      else if opr = ''>'' then map_sum id VBool (py_less b a)
      else if opr = ''<='' then
        (case py_less b a of Inl e \<Rightarrow> Inl e | Inr r \<Rightarrow> Inr (VBool (\<not> r)))
      else if opr = ''>='' then
        (case py_less a b of Inl e \<Rightarrow> Inl e | Inr r \<Rightarrow> Inr (VBool (\<not> r)))
      else Inl (SyntaxError ''invalid syntax''))"

definition cmp_eval :: evaluator where
  "cmp_eval condition ctx =
     (case split_blanks condition of
        [name, opr, lit] \<Rightarrow>
          (if is_name name then
             (case parse_literal lit of
                None \<Rightarrow> Inl (OtherError ''outside the fragment'')
              | Some b \<Rightarrow>
                  (case ctx name of
                     None \<Rightarrow> Inl (NameError (''name '' @ quote @ name @ quote @ '' is not defined''))
                   | Some a \<Rightarrow> compare_values opr a b))
           else Inl (OtherError ''outside the fragment''))
      | [[]] \<Rightarrow> Inl (SyntaxError ''invalid syntax'')
      | _ \<Rightarrow> Inl (OtherError ''outside the fragment''))"

section \<open>Scenarios\<close>

definition q1_is_no :: string where
  "q1_is_no = ''q1 == '' @ quote @ ''no'' @ quote"

definition q2_is_no :: string where
  "q2_is_no = ''q2 == '' @ quote @ ''no'' @ quote"

definition plain_question :: "string \<Rightarrow> string \<Rightarrow> question" where
  "plain_question v t =
     \<lparr>variable = v, question_text = t, widget = ''Textbox'', widget_args = None,
      skip_if = None, valid_if = None, invalid_message = None\<rparr>"

text \<open>
  Scenario B: three questions, the second with \<open>skip_if = "q1 == 'no'"\<close>, and the answer
  \<open>'no'\<close> to the first.
\<close>

definition scenario_b_questions :: "question list" where
  "scenario_b_questions =
     [plain_question ''q1'' ''Question 1'',
      (plain_question ''q2'' ''Question 2'')
        \<lparr>skip_if := Some q1_is_no\<rparr>,
      plain_question ''q3'' ''Question 3'']"

definition scenario_b_args :: "pyval list" where
  "scenario_b_args = [VStr ''no'', VNone, VNone]"

definition scenario_b_context :: pycontext where
  "scenario_b_context = [''q1'' \<mapsto> VStr ''no'', ''q2'' \<mapsto> VNone, ''q3'' \<mapsto> VNone]"

text \<open>
  A question set whose first question is skipped under the answers given: the first
  question has \<open>skip_if = "q2 == 'no'"\<close> and the second is answered \<open>'no'\<close>.
\<close>

definition first_skipped_questions :: "question list" where
  "first_skipped_questions =
     [(plain_question ''q1'' ''Question 1'')
        \<lparr>skip_if := Some q2_is_no\<rparr>,
      plain_question ''q2'' ''Question 2'']"

definition first_skipped_context :: pycontext where
  "first_skipped_context = [''q1'' \<mapsto> VNone, ''q2'' \<mapsto> VStr ''no'']"

text \<open>A question set in which both questions are skipped under the answers given.\<close>

definition all_skipped_questions :: "question list" where
  "all_skipped_questions =
     [(plain_question ''q1'' ''Question 1'')
        \<lparr>skip_if := Some q2_is_no\<rparr>,
      (plain_question ''q2'' ''Question 2'')
        \<lparr>skip_if := Some q1_is_no\<rparr>]"

definition all_skipped_context :: pycontext where
  "all_skipped_context = [''q1'' \<mapsto> VStr ''no'', ''q2'' \<mapsto> VStr ''no'']"


text \<open>
  A question set with a trailing eligible question: the first three questions have
  \<open>skip_if = "q4 == 'x'"\<close> and the fourth is answered \<open>'x'\<close>.
\<close>

definition q4_is_x :: string where
  "q4_is_x = ''q4 == '' @ quote @ ''x'' @ quote"

definition gap_questions :: "question list" where
  "gap_questions =
     [(plain_question ''q1'' ''Question 1'')\<lparr>skip_if := Some q4_is_x\<rparr>,
      (plain_question ''q2'' ''Question 2'')\<lparr>skip_if := Some q4_is_x\<rparr>,
      (plain_question ''q3'' ''Question 3'')\<lparr>skip_if := Some q4_is_x\<rparr>,
      plain_question ''q4'' ''Question 4'']"

definition gap_args :: "pyval list" where
  "gap_args = [VStr ''a'', VStr ''b'', VStr ''c'', VStr ''x'']"

definition gap_context :: pycontext where
  "gap_context =
     [''q1'' \<mapsto> VStr ''a'', ''q2'' \<mapsto> VStr ''b'', ''q3'' \<mapsto> VStr ''c'', ''q4'' \<mapsto> VStr ''x'']"

text \<open>
  Scenario C: the first question has \<open>valid_if = "age >= 18"\<close> and
  \<open>invalid_message = "Must be adult"\<close>, and the answer submitted is 10.
\<close>

definition age_is_adult :: string where
  "age_is_adult = ''age >= 18''"

definition scenario_c_questions :: "question list" where
  "scenario_c_questions =
     [(plain_question ''age'' ''Age'')
        \<lparr>widget := ''Number'', valid_if := Some age_is_adult,
         invalid_message := Some ''Must be adult''\<rparr>,
      plain_question ''q2'' ''Question 2'']"

definition scenario_c_args :: "pyval list" where
  "scenario_c_args = [VInt 10, VNone]"

definition scenario_c_context :: pycontext where
  "scenario_c_context = [''age'' \<mapsto> VInt 10, ''q2'' \<mapsto> VNone]"

text \<open>
  A question with \<open>valid_if = "code == 'abc'"\<close> and \<open>invalid_message = "Wrong code"\<close>,
  no default, and an empty text submitted.
\<close>

definition code_is_abc :: string where
  "code_is_abc = ''code == '' @ quote @ ''abc'' @ quote"

definition code_questions :: "question list" where
  "code_questions =
     [(plain_question ''code'' ''Code'')
        \<lparr>valid_if := Some code_is_abc, invalid_message := Some ''Wrong code''\<rparr>]"

definition code_args :: "pyval list" where
  "code_args = [VStr []]"

definition code_context :: pycontext where
  "code_context = [''code'' \<mapsto> VStr []]"

text \<open>
  A question whose \<open>skip_if\<close> reads its own answer: the question of variable \<open>a\<close> has
  \<open>skip_if = "a == ''"\<close> and no default, and an empty text is submitted.
\<close>

definition a_is_blank :: string where
  "a_is_blank = ''a == '' @ quote @ quote"

definition self_skip_questions :: "question list" where
  "self_skip_questions =
     [(plain_question ''a'' ''Question A'')\<lparr>skip_if := Some a_is_blank\<rparr>,
      plain_question ''b'' ''Question B'']"

definition self_skip_args :: "pyval list" where
  "self_skip_args = [VStr [], VNone]"

definition self_skip_context :: pycontext where
  "self_skip_context = [''a'' \<mapsto> VStr [], ''b'' \<mapsto> VNone]"

text \<open>
  A runtime for the scenarios: conditions are evaluated by \<open>cmp_eval\<close>, \<open>str\<close> is given
  on \<open>None\<close>, booleans, integers and strings, the Python scoring code defines a function
  \<open>scoring\<close> with the given outcome, R is not used and the report generator succeeds.
\<close>

function show_nat :: "nat \<Rightarrow> string" where
  "show_nat n =
     (if n < 10 then [char_of (48 + n)]
      else show_nat (n div 10) @ [char_of (48 + n mod 10)])"
  by pat_completeness auto
termination
  by (relation "measure (\<lambda>n. n)") auto

fun scalar_str :: "pyobj \<Rightarrow> string" where
  "scalar_str (Py VNone) = ''None''"
| "scalar_str (Py (VBool b)) = (if b then ''True'' else ''False'')"
| "scalar_str (Py (VInt i)) = (if i < 0 then ''-'' @ show_nat (nat (- i)) else show_nat (nat i))"
| "scalar_str (Py (VStr s)) = s"
| "scalar_str obj = []"

definition scenario_runtime :: "(exn + pyval) \<Rightarrow> unit runtime" where
  "scenario_runtime outcome =
     \<lparr>rt_eval = cmp_eval,
      rt_str = scalar_str,
      rt_exec = (\<lambda>code. Inr (Some (\<lambda>inputs. outcome))),
      rt_r_call = (\<lambda>code inputs. Inl (OtherError ''R is not available'')),
      rt_generate_pdf_report =
        (\<lambda>questions answers markdown_result results request pdf_options.
           Inr ''report.pdf'')\<rparr>"

text \<open>
  Scenario E: a scoring result whose table has rows of unequal length, as a Python tuple
  and as the list an R function returns; and an R result whose table is empty.
\<close>

definition ragged_python_result :: pyval where
  "ragged_python_result =
     VTuple [VStr ''Score'',
             VList [VList [VStr ''Item'', VStr ''Value''], VList [VStr ''only'']],
             VDict [(''include_md_in_pdf'', VBool True), (''include_data_in_pdf'', VBool True)]]"

definition r_pdf_options :: rvalue where
  "r_pdf_options =
     RList [(''include_md_in_pdf'', RAtomic [VBool True]),
            (''include_data_in_pdf'', RAtomic [VBool True])]"

definition ragged_r_result :: rvalue where
  "ragged_r_result =
     RList [([], RAtomic [VStr ''Score'']),
            ([], RList [([], RAtomic [VStr ''Item'', VStr ''Value'']),
                        ([], RAtomic [VStr ''only''])]),
            ([], r_pdf_options)]"

definition empty_r_result :: rvalue where
  "empty_r_result =
     RList [([], RAtomic [VStr ''Score'']), ([], RList []), ([], r_pdf_options)]"

text \<open>
  The end of scenario B: the third question is answered and the user advances from it.
\<close>

definition scenario_e_args :: "pyval list" where
  "scenario_e_args = [VStr ''no'', VNone, VStr ''yes'']"

definition scenario_e_context :: pycontext where
  "scenario_e_context = [''q1'' \<mapsto> VStr ''no'', ''q2'' \<mapsto> VNone, ''q3'' \<mapsto> VStr ''yes'']"

text \<open>
  A session on the question set with a trailing eligible question. The rows are created
  with only the first one visible. The user answers the first three questions, advancing
  each time, then types \<open>x\<close> as the fourth answer and goes back.
\<close>

definition initial_screen :: "question list \<Rightarrow> string \<Rightarrow> bool" where
  "initial_screen questions v = (case questions of [] \<Rightarrow> False | q # qs \<Rightarrow> v = variable q)"

definition shown_after :: "(string \<Rightarrow> bool) \<Rightarrow> (exn + updates) \<Rightarrow> string \<Rightarrow> bool" where
  "shown_after screen r = (case r of Inl e \<Rightarrow> screen | Inr u \<Rightarrow> apply_rows screen u)"

definition shown_after_next ::
  "(string \<Rightarrow> bool) \<Rightarrow> (string list \<times> (exn + updates)) option \<Rightarrow> string \<Rightarrow> bool"
where
  "shown_after_next screen run =
     (case run of None \<Rightarrow> screen | Some (warnings, r) \<Rightarrow> shown_after screen r)"

definition shown_after_prev ::
  "(string \<Rightarrow> bool) \<Rightarrow> (exn + updates) option \<Rightarrow> string \<Rightarrow> bool"
where
  "shown_after_prev screen run = (case run of None \<Rightarrow> screen | Some r \<Rightarrow> shown_after screen r)"

definition returned_idx :: "(string list \<times> (exn + updates)) option \<Rightarrow> int option" where
  "returned_idx run =
     (case run of
        Some (warnings, Inr u) \<Rightarrow> Some (current_question_idx u)
      | _ \<Rightarrow> None)"

definition gap_next :: "int \<Rightarrow> pyval list \<Rightarrow> (string list \<times> (exn + updates)) option" where
  "gap_next current_idx args =
     go_next (scenario_runtime (Inr VNone)) gap_questions ''python'' [] None current_idx args"

definition gap_screen_loaded :: "string \<Rightarrow> bool" where
  "gap_screen_loaded =
     shown_after (initial_screen gap_questions)
       (update_question_display cmp_eval gap_questions 0 [VNone, VNone, VNone, VNone])"

definition gap_screen_at_4 :: "string \<Rightarrow> bool" where
  "gap_screen_at_4 =
     shown_after_next
       (shown_after_next
          (shown_after_next gap_screen_loaded
             (gap_next 0 [VStr ''a'', VNone, VNone, VNone]))
          (gap_next 1 [VStr ''a'', VStr ''b'', VNone, VNone]))
       (gap_next 2 [VStr ''a'', VStr ''b'', VStr ''c'', VNone])"

definition gap_screen_back :: "string \<Rightarrow> bool" where
  "gap_screen_back =
     shown_after_prev gap_screen_at_4 (go_prev cmp_eval gap_questions 3 gap_args)"

section \<open>Condition evaluation: skip and validity conditions\<close>

text \<open>
  Claim C9. \<open>evaluate_skip_if\<close> and \<open>evaluate_valid_if\<close> agree on every condition and
  context: either both return the same boolean, or both raise (a \<open>RuntimeError\<close>, whose
  message is the only difference between the two functions).
\<close>

theorem evaluate_skip_if_valid_if_agree:
  "(\<exists>b. evaluate_skip_if pyeval condition ctx = Inr b
        \<and> evaluate_valid_if pyeval condition ctx = Inr b)
   \<or> (\<exists>m1 m2. evaluate_skip_if pyeval condition ctx = Inl (RuntimeError m1)
        \<and> evaluate_valid_if pyeval condition ctx = Inl (RuntimeError m2))"
  by (cases "pyeval condition ctx") (simp_all add: evaluate_skip_if_def evaluate_valid_if_def)

section \<open>Navigation: the scan of \<open>find_next_valid_question\<close>\<close>

lemma find_next_loop_outside:
  "\<not> (0 \<le> idx \<and> idx < int (length questions)) \<Longrightarrow>
   find_next_loop pyeval questions ctx direction idx =
     Some (Inr (if int (length questions) \<le> idx then idx else 0))"
  by (subst find_next_loop.simps, subst if_not_P, assumption, rule refl)

lemma find_next_loop_eligible:
  "0 \<le> idx \<Longrightarrow> idx < int (length questions) \<Longrightarrow> eligible pyeval ctx (questions ! nat idx) \<Longrightarrow>
   find_next_loop pyeval questions ctx direction idx = Some (Inr idx)"
  by (subst find_next_loop.simps) (simp add: eligible_def split: option.splits)

lemma find_next_loop_skipped:
  "0 \<le> idx \<Longrightarrow> idx < int (length questions) \<Longrightarrow> skipped pyeval ctx (questions ! nat idx) \<Longrightarrow>
   find_next_loop pyeval questions ctx direction idx =
     find_next_loop pyeval questions ctx direction (idx + direction)"
  by (subst find_next_loop.simps) (simp add: skipped_def split: option.splits)

lemma find_next_loop_error:
  "0 \<le> idx \<Longrightarrow> idx < int (length questions) \<Longrightarrow> skip_if (questions ! nat idx) = Some c \<Longrightarrow>
   evaluate_skip_if pyeval c ctx = Inl e \<Longrightarrow>
   find_next_loop pyeval questions ctx direction idx = Some (Inl e)"
  by (subst find_next_loop.simps) simp

lemma question_cases:
  obtains (eligible) "eligible pyeval ctx q" | (skipped) "skipped pyeval ctx q"
  | (error) c e where "skip_if q = Some c" "evaluate_skip_if pyeval c ctx = Inl e"
proof (cases "skip_if q")
  case None
  then show ?thesis using eligible by (simp add: eligible_def)
next
  case (Some c)
  show ?thesis
  proof (cases "evaluate_skip_if pyeval c ctx")
    case (Inl e)
    then show ?thesis using error Some by blast
  next
    case (Inr b)
    then show ?thesis using eligible skipped Some by (cases b) (simp_all add: eligible_def skipped_def)
  qed
qed

lemma eligible_not_skipped: "eligible pyeval ctx q \<Longrightarrow> \<not> skipped pyeval ctx q"
  by (auto simp: eligible_def skipped_def split: option.splits)

lemma forward_scan:
  "0 \<le> idx \<Longrightarrow>
   \<exists>r. find_next_loop pyeval questions ctx 1 idx = Some r \<and>
     (\<forall>j. r = Inr j \<longrightarrow>
        idx \<le> j \<and> (\<forall>k. idx \<le> k \<and> k < j \<and> k < int (length questions) \<longrightarrow> skipped pyeval ctx (questions ! nat k)) \<and>
        ((j < int (length questions) \<and> eligible pyeval ctx (questions ! nat j))
         \<or> (j = max idx (int (length questions)))))"
proof (induction "nat (int (length questions) - idx)" arbitrary: idx rule: less_induct)
  case less
  show ?case
  proof (cases "idx < int (length questions)")
    case False
    then have "find_next_loop pyeval questions ctx 1 idx = Some (Inr idx)"
      by (simp add: find_next_loop_outside)
    then show ?thesis using False less.prems by (auto simp: max_def)
  next
    case True
    note inr = True
    show ?thesis
    proof (cases rule: question_cases [of pyeval ctx "questions ! nat idx"])
      case eligible
      then show ?thesis using less.prems inr by (auto simp: find_next_loop_eligible)
    next
      case (error c e)
      then show ?thesis using less.prems inr by (simp add: find_next_loop_error)
    next
      case skipped
      have step: "find_next_loop pyeval questions ctx 1 idx = find_next_loop pyeval questions ctx 1 (idx + 1)"
        using skipped less.prems inr by (rule_tac find_next_loop_skipped) 
      have "nat (int (length questions) - (idx + 1)) < nat (int (length questions) - idx)"
        using inr by simp
      from less.hyps [OF this] less.prems
      obtain r where r: "find_next_loop pyeval questions ctx 1 (idx + 1) = Some r"
        and rj: "\<forall>j. r = Inr j \<longrightarrow>
        idx + 1 \<le> j \<and> (\<forall>k. idx + 1 \<le> k \<and> k < j \<and> k < int (length questions) \<longrightarrow> skipped pyeval ctx (questions ! nat k)) \<and>
        ((j < int (length questions) \<and> eligible pyeval ctx (questions ! nat j))
         \<or> (j = max (idx + 1) (int (length questions))))"
        by force
      have "\<forall>j. r = Inr j \<longrightarrow>
        idx \<le> j \<and> (\<forall>k. idx \<le> k \<and> k < j \<and> k < int (length questions) \<longrightarrow> skipped pyeval ctx (questions ! nat k)) \<and>
        ((j < int (length questions) \<and> eligible pyeval ctx (questions ! nat j))
         \<or> (j = max idx (int (length questions))))"
      proof (intro allI impI)
        fix j assume "r = Inr j"
        with rj have a: "idx + 1 \<le> j" and b: "\<forall>k. idx + 1 \<le> k \<and> k < j \<and> k < int (length questions) \<longrightarrow> skipped pyeval ctx (questions ! nat k)"
          and c: "(j < int (length questions) \<and> eligible pyeval ctx (questions ! nat j))
         \<or> (j = max (idx + 1) (int (length questions)))" by blast+
        have "\<forall>k. idx \<le> k \<and> k < j \<and> k < int (length questions) \<longrightarrow> skipped pyeval ctx (questions ! nat k)"
        proof (intro allI impI)
          fix k assume k: "idx \<le> k \<and> k < j \<and> k < int (length questions)"
          show "skipped pyeval ctx (questions ! nat k)"
          proof (cases "k = idx")
            case True then show ?thesis using skipped by simp
          next
            case False then show ?thesis using b k by simp
          qed
        qed
        moreover have "(j < int (length questions) \<and> eligible pyeval ctx (questions ! nat j))
         \<or> (j = max idx (int (length questions)))" using c inr by (auto simp: max_def)
        ultimately show "idx \<le> j \<and> (\<forall>k. idx \<le> k \<and> k < j \<and> k < int (length questions) \<longrightarrow> skipped pyeval ctx (questions ! nat k)) \<and>
        ((j < int (length questions) \<and> eligible pyeval ctx (questions ! nat j))
         \<or> (j = max idx (int (length questions))))" using a by simp
      qed
      then show ?thesis using step r by simp
    qed
  qed
qed

lemma backward_scan:
  "idx < int (length questions) \<Longrightarrow>
   \<exists>r. find_next_loop pyeval questions ctx (- 1) idx = Some r \<and>
     (\<forall>j. r = Inr j \<longrightarrow>
        (\<forall>k. j < k \<and> k \<le> idx \<longrightarrow> skipped pyeval ctx (questions ! nat k)) \<and>
        ((0 \<le> j \<and> j \<le> idx \<and> eligible pyeval ctx (questions ! nat j))
         \<or> (j = 0 \<and> (\<forall>k. 0 \<le> k \<and> k \<le> idx \<longrightarrow> skipped pyeval ctx (questions ! nat k)))))"
proof (induction "nat (idx + 1)" arbitrary: idx rule: less_induct)
  case less
  show ?case
  proof (cases "0 \<le> idx")
    case False
    then have "find_next_loop pyeval questions ctx (- 1) idx = Some (Inr 0)"
      using less.prems by (simp add: find_next_loop_outside)
    then show ?thesis using False by auto
  next
    case True
    note nonneg = True
    show ?thesis
    proof (cases rule: question_cases [of pyeval ctx "questions ! nat idx"])
      case eligible
      then show ?thesis using less.prems nonneg by (auto simp: find_next_loop_eligible)
    next
      case (error c e)
      then show ?thesis using less.prems nonneg by (simp add: find_next_loop_error)
    next
      case skipped
      have step: "find_next_loop pyeval questions ctx (- 1) idx
                  = find_next_loop pyeval questions ctx (- 1) (idx + - 1)"
        using skipped less.prems nonneg by (rule_tac find_next_loop_skipped)
      have "nat ((idx - 1) + 1) < nat (idx + 1)" "idx - 1 < int (length questions)"
        using nonneg less.prems by simp_all
      from less.hyps [OF this]
      obtain r where r: "find_next_loop pyeval questions ctx (- 1) (idx - 1) = Some r"
        and rj: "\<And>j. r = Inr j \<Longrightarrow>
        (\<forall>k. j < k \<and> k \<le> idx - 1 \<longrightarrow> skipped pyeval ctx (questions ! nat k)) \<and>
        ((0 \<le> j \<and> j \<le> idx - 1 \<and> eligible pyeval ctx (questions ! nat j))
         \<or> (j = 0 \<and> (\<forall>k. 0 \<le> k \<and> k \<le> idx - 1 \<longrightarrow> skipped pyeval ctx (questions ! nat k))))"
        by blast
      have "(\<forall>k. j < k \<and> k \<le> idx \<longrightarrow> skipped pyeval ctx (questions ! nat k)) \<and>
        ((0 \<le> j \<and> j \<le> idx \<and> eligible pyeval ctx (questions ! nat j))
         \<or> (j = 0 \<and> (\<forall>k. 0 \<le> k \<and> k \<le> idx \<longrightarrow> skipped pyeval ctx (questions ! nat k))))"
        if "r = Inr j" for j
      proof -
        have below: "skipped pyeval ctx (questions ! nat k)" if "k \<le> idx" "\<not> k \<le> idx - 1" for k
        proof -
          have "k = idx" using that by simp
          then show ?thesis using skipped by simp
        qed
        from rj [OF that] have
          b: "\<forall>k. j < k \<and> k \<le> idx - 1 \<longrightarrow> skipped pyeval ctx (questions ! nat k)"
          and c: "(0 \<le> j \<and> j \<le> idx - 1 \<and> eligible pyeval ctx (questions ! nat j))
         \<or> (j = 0 \<and> (\<forall>k. 0 \<le> k \<and> k \<le> idx - 1 \<longrightarrow> skipped pyeval ctx (questions ! nat k)))"
          by blast+
        have "\<forall>k. j < k \<and> k \<le> idx \<longrightarrow> skipped pyeval ctx (questions ! nat k)"
          using b below by blast
        moreover have "(0 \<le> j \<and> j \<le> idx \<and> eligible pyeval ctx (questions ! nat j))
         \<or> (j = 0 \<and> (\<forall>k. 0 \<le> k \<and> k \<le> idx \<longrightarrow> skipped pyeval ctx (questions ! nat k)))"
        proof (cases "0 \<le> j \<and> j \<le> idx - 1 \<and> eligible pyeval ctx (questions ! nat j)")
          case True
          then show ?thesis by simp
        next
          case False
          with c have j0: "j = 0"
            and all: "\<forall>k. 0 \<le> k \<and> k \<le> idx - 1 \<longrightarrow> skipped pyeval ctx (questions ! nat k)"
            by blast+
          have "\<forall>k. 0 \<le> k \<and> k \<le> idx \<longrightarrow> skipped pyeval ctx (questions ! nat k)"
            using all below by blast
          then show ?thesis using j0 by blast
        qed
        ultimately show ?thesis by blast
      qed
      then show ?thesis using step r by simp
    qed
  qed
qed

lemma forward_all_skipped:
  "0 \<le> idx \<Longrightarrow> idx \<le> int (length questions) \<Longrightarrow>
   \<forall>k. idx \<le> k \<and> k < int (length questions) \<longrightarrow> skipped pyeval ctx (questions ! nat k) \<Longrightarrow>
   find_next_loop pyeval questions ctx 1 idx = Some (Inr (int (length questions)))"
proof (induction "nat (int (length questions) - idx)" arbitrary: idx rule: less_induct)
  case less
  show ?case
  proof (cases "idx < int (length questions)")
    case False
    then show ?thesis using less.prems by (simp add: find_next_loop_outside)
  next
    case True
    then have "skipped pyeval ctx (questions ! nat idx)" using less.prems by simp
    then have "find_next_loop pyeval questions ctx 1 idx
               = find_next_loop pyeval questions ctx 1 (idx + 1)"
      using less.prems True by (rule_tac find_next_loop_skipped)
    moreover have "find_next_loop pyeval questions ctx 1 (idx + 1) = Some (Inr (int (length questions)))"
      using less.prems True by (intro less.hyps) simp_all
    ultimately show ?thesis by simp
  qed
qed

lemma backward_all_skipped:
  "idx < int (length questions) \<Longrightarrow>
   \<forall>k. 0 \<le> k \<and> k \<le> idx \<longrightarrow> skipped pyeval ctx (questions ! nat k) \<Longrightarrow>
   find_next_loop pyeval questions ctx (- 1) idx = Some (Inr 0)"
proof (induction "nat (idx + 1)" arbitrary: idx rule: less_induct)
  case less
  show ?case
  proof (cases "0 \<le> idx")
    case False
    then show ?thesis using less.prems by (simp add: find_next_loop_outside)
  next
    case True
    then have "skipped pyeval ctx (questions ! nat idx)" using less.prems by simp
    then have "find_next_loop pyeval questions ctx (- 1) idx
               = find_next_loop pyeval questions ctx (- 1) (idx + - 1)"
      using less.prems True by (rule_tac find_next_loop_skipped)
    moreover have "find_next_loop pyeval questions ctx (- 1) (idx - 1) = Some (Inr 0)"
      using less.prems True by (intro less.hyps) simp_all
    ultimately show ?thesis by simp
  qed
qed

lemma backward_nonneg:
  assumes "find_next_loop pyeval questions ctx (- 1) idx = Some (Inr j)"
  shows "0 \<le> j"
proof (cases "idx < int (length questions)")
  case True
  from backward_scan [OF True, of pyeval ctx] assms show ?thesis by auto
next
  case False
  then have "find_next_loop pyeval questions ctx (- 1) idx = Some (Inr idx)"
    by (simp add: find_next_loop_outside)
  then show ?thesis using assms False by simp
qed

lemmas cmp_eval_simps =
  cmp_eval_def quote_def is_name_def is_name_char_def is_digit_def py_keywords_def
  parse_literal_def compare_values_def py_equal_def py_less_def

lemma scenario_b_skip:
  "evaluate_skip_if cmp_eval q1_is_no scenario_b_context = Inr True"
  by (simp add: evaluate_skip_if_def scenario_b_context_def q1_is_no_def cmp_eval_simps)

lemma first_skipped_skip:
  "evaluate_skip_if cmp_eval q2_is_no first_skipped_context = Inr True"
  by (simp add: evaluate_skip_if_def first_skipped_context_def q2_is_no_def cmp_eval_simps)

lemma all_skipped_skip:
  "evaluate_skip_if cmp_eval q2_is_no all_skipped_context = Inr True"
  "evaluate_skip_if cmp_eval q1_is_no all_skipped_context = Inr True"
  by (simp_all add: evaluate_skip_if_def all_skipped_context_def q1_is_no_def q2_is_no_def cmp_eval_simps)

lemma scenario_b_forward:
  "find_next_valid_question cmp_eval 0 scenario_b_questions scenario_b_context 1 = Some (Inr 2)"
  by (simp add: find_next_valid_question_def find_next_loop.simps scenario_b_questions_def
      plain_question_def scenario_b_skip)

lemma all_skipped_skipped:
  "skipped cmp_eval all_skipped_context (all_skipped_questions ! 0)"
  "skipped cmp_eval all_skipped_context (all_skipped_questions ! Suc 0)"
  by (simp_all add: skipped_def all_skipped_questions_def plain_question_def all_skipped_skip)

section \<open>Navigation: where \<open>find_next_valid_question\<close> lands\<close>

text \<open>
  Claim C1, as amended. For the directions \<open>+1\<close> and \<open>-1\<close> and a current index in
  \<open>[0, N]\<close>, \<open>find_next_valid_question\<close> returns (it raises or yields an index). An index
  it yields is the index of an eligible question (no \<open>skip_if\<close>, or a \<open>skip_if\<close> that
  evaluates false), or one of the two boundary values: forward, an index past the last
  question; backward, the index 0, to which the scan is clamped when every question
  before the current one is skipped. In the backward case the question at index 0 is then
  itself skipped whenever the current index is positive.
\<close>

theorem find_next_valid_question_lands:
  assumes "direction = 1 \<or> direction = - 1"
    and "0 \<le> current_idx" and "current_idx \<le> int (length questions)"
  shows "\<exists>r. find_next_valid_question pyeval current_idx questions ctx direction = Some r \<and>
           (\<forall>j. r = Inr j \<longrightarrow>
              (0 \<le> j \<and> j < int (length questions) \<and> eligible pyeval ctx (questions ! nat j))
              \<or> (direction = 1 \<and> int (length questions) \<le> j)
              \<or> (direction = - 1 \<and> j = 0 \<and>
                  (\<forall>k. 0 \<le> k \<and> k < current_idx \<longrightarrow> skipped pyeval ctx (questions ! nat k))))"
proof (cases "direction = 1")
  case True
  have "0 \<le> current_idx + 1" using assms(2) by simp
  from forward_scan [OF this, of pyeval questions ctx]
  obtain r where r: "find_next_loop pyeval questions ctx 1 (current_idx + 1) = Some r"
    and full: "\<forall>j. r = Inr j \<longrightarrow>
        current_idx + 1 \<le> j \<and> (\<forall>k. current_idx + 1 \<le> k \<and> k < j \<and> k < int (length questions) \<longrightarrow> skipped pyeval ctx (questions ! nat k)) \<and>
        ((j < int (length questions) \<and> eligible pyeval ctx (questions ! nat j))
         \<or> (j = max (current_idx + 1) (int (length questions))))"
    by (elim exE conjE)
  have rj: "current_idx + 1 \<le> j \<and>
       ((j < int (length questions) \<and> eligible pyeval ctx (questions ! nat j))
         \<or> j = max (current_idx + 1) (int (length questions)))" if "r = Inr j" for j
    using full [rule_format, OF that] by (elim conjE, intro conjI) assumption+
  have "(0 \<le> j \<and> j < int (length questions) \<and> eligible pyeval ctx (questions ! nat j))
        \<or> int (length questions) \<le> j" if "r = Inr j" for j
  proof (cases "j < int (length questions) \<and> eligible pyeval ctx (questions ! nat j)")
    case True
    moreover have "0 \<le> j" using rj [OF that] assms(2) by linarith
    ultimately show ?thesis by blast
  next
    case False
    with rj [OF that] have "j = max (current_idx + 1) (int (length questions))" by blast
    then have "int (length questions) \<le> j" by simp
    then show ?thesis by blast
  qed
  then show ?thesis unfolding find_next_valid_question_def True using r by auto
next
  case False
  then have d: "direction = - 1" using assms(1) by simp
  have "current_idx + - 1 < int (length questions)" using assms(3) by simp
  from backward_scan [OF this, of pyeval ctx]
  obtain r where r: "find_next_loop pyeval questions ctx (- 1) (current_idx + - 1) = Some r"
    and full: "\<forall>j. r = Inr j \<longrightarrow>
        (\<forall>k. j < k \<and> k \<le> current_idx + - 1 \<longrightarrow> skipped pyeval ctx (questions ! nat k)) \<and>
        ((0 \<le> j \<and> j \<le> current_idx + - 1 \<and> eligible pyeval ctx (questions ! nat j))
         \<or> (j = 0 \<and> (\<forall>k. 0 \<le> k \<and> k \<le> current_idx + - 1
                         \<longrightarrow> skipped pyeval ctx (questions ! nat k))))"
    by (elim exE conjE)
  have rj: "(0 \<le> j \<and> j \<le> current_idx + - 1 \<and> eligible pyeval ctx (questions ! nat j))
         \<or> (j = 0 \<and> (\<forall>k. 0 \<le> k \<and> k \<le> current_idx + - 1
                         \<longrightarrow> skipped pyeval ctx (questions ! nat k)))" if "r = Inr j" for j
    using full [rule_format, OF that] by (elim conjE)
  have "(0 \<le> j \<and> j < int (length questions) \<and> eligible pyeval ctx (questions ! nat j))
        \<or> (j = 0 \<and> (\<forall>k. 0 \<le> k \<and> k < current_idx \<longrightarrow> skipped pyeval ctx (questions ! nat k)))"
    if "r = Inr j" for j
  proof (cases "0 \<le> j \<and> j \<le> current_idx + - 1 \<and> eligible pyeval ctx (questions ! nat j)")
    case True
    moreover have "j < int (length questions)" using True assms(3) by linarith
    ultimately show ?thesis by blast
  next
    case False
    with rj [OF that] have j0: "j = 0"
      and all: "\<forall>k. 0 \<le> k \<and> k \<le> current_idx + - 1 \<longrightarrow> skipped pyeval ctx (questions ! nat k)"
      by blast+
    have "\<forall>k. 0 \<le> k \<and> k < current_idx \<longrightarrow> skipped pyeval ctx (questions ! nat k)"
    proof (intro allI impI)
      fix k assume k: "0 \<le> k \<and> k < current_idx"
      then have "0 \<le> k \<and> k \<le> current_idx + - 1" by linarith
      with all show "skipped pyeval ctx (questions ! nat k)" by blast
    qed
    then show ?thesis using j0 by blast
  qed
  then show ?thesis unfolding find_next_valid_question_def d using r by auto
qed

text \<open>
  The theorem at scenario B: forward from index 0 the scan passes the skipped second
  question and lands on index 2.
\<close>

theorem find_next_valid_question_lands_witness:
  "((1::int) = 1 \<or> (1::int) = - 1) \<and> (0::int) \<le> 0 \<and> 0 \<le> int (length scenario_b_questions)
   \<and> (\<exists>r. find_next_valid_question cmp_eval 0 scenario_b_questions scenario_b_context 1 = Some r \<and>
           (\<forall>j. r = Inr j \<longrightarrow>
              (0 \<le> j \<and> j < int (length scenario_b_questions)
                 \<and> eligible cmp_eval scenario_b_context (scenario_b_questions ! nat j))
              \<or> ((1::int) = 1 \<and> int (length scenario_b_questions) \<le> j)
              \<or> ((1::int) = - 1 \<and> j = 0 \<and>
                  (\<forall>k. 0 \<le> k \<and> k < 0
                     \<longrightarrow> skipped cmp_eval scenario_b_context (scenario_b_questions ! nat k)))))
   \<and> find_next_valid_question cmp_eval 0 scenario_b_questions scenario_b_context 1
       = Some (Inr 2)"
proof -
  have h1: "(1::int) = 1 \<or> (1::int) = - 1" by simp
  have h2: "(0::int) \<le> 0" by simp
  have h3: "(0::int) \<le> int (length scenario_b_questions)" by simp
  show ?thesis
    using h1 h2 h3
      find_next_valid_question_lands [OF h1 h2 h3, of cmp_eval scenario_b_context]
      scenario_b_forward
    by (intro conjI)
qed

text \<open>
  Claim C1 as stated fails for the backward direction: with the first question skipped,
  the scan backward from index 1 returns index 0, whose \<open>skip_if\<close> evaluates true.
\<close>

theorem find_next_valid_question_clamp_counterexample:
  "find_next_valid_question cmp_eval 1 first_skipped_questions first_skipped_context (- 1)
     = Some (Inr 0)
   \<and> skip_if (first_skipped_questions ! 0) = Some q2_is_no
   \<and> evaluate_skip_if cmp_eval q2_is_no first_skipped_context
       = Inr True"
  by (simp add: find_next_valid_question_def find_next_loop.simps first_skipped_questions_def
      plain_question_def first_skipped_skip)

section \<open>Navigation: the boundaries\<close>

text \<open>
  Claim C3. The boundary policy of \<open>find_next_valid_question\<close> is asymmetric. Forward,
  from an index in \<open>[-1, N)\<close> after which every question is skipped, the scan returns
  \<open>N\<close>; in particular forward from \<open>N - 1\<close> it returns \<open>N\<close>. Backward, from an index
  at most \<open>N\<close> before which every question is skipped, the scan returns 0; in particular
  backward from 0 it returns 0; and a backward scan never returns a negative index.
\<close>

theorem find_next_valid_question_boundaries:
  "(- 1 \<le> fwd_idx \<and> fwd_idx < int (length questions) \<and>
      (\<forall>k. fwd_idx < k \<and> k < int (length questions) \<longrightarrow> skipped pyeval ctx (questions ! nat k))
      \<longrightarrow> find_next_valid_question pyeval fwd_idx questions ctx 1
            = Some (Inr (int (length questions))))
   \<and> find_next_valid_question pyeval (int (length questions) - 1) questions ctx 1
       = Some (Inr (int (length questions)))
   \<and> (bwd_idx \<le> int (length questions) \<and>
      (\<forall>k. 0 \<le> k \<and> k < bwd_idx \<longrightarrow> skipped pyeval ctx (questions ! nat k))
      \<longrightarrow> find_next_valid_question pyeval bwd_idx questions ctx (- 1) = Some (Inr 0))
   \<and> find_next_valid_question pyeval 0 questions ctx (- 1) = Some (Inr 0)
   \<and> (\<forall>j. find_next_valid_question pyeval bwd_idx questions ctx (- 1) = Some (Inr j)
          \<longrightarrow> 0 \<le> j)"
proof (intro conjI impI allI)
  assume a: "- 1 \<le> fwd_idx \<and> fwd_idx < int (length questions) \<and>
      (\<forall>k. fwd_idx < k \<and> k < int (length questions) \<longrightarrow> skipped pyeval ctx (questions ! nat k))"
  show "find_next_valid_question pyeval fwd_idx questions ctx 1
            = Some (Inr (int (length questions)))"
    unfolding find_next_valid_question_def
    using a by (intro forward_all_skipped) simp_all
next
  show "find_next_valid_question pyeval (int (length questions) - 1) questions ctx 1
       = Some (Inr (int (length questions)))"
    unfolding find_next_valid_question_def by (simp add: find_next_loop_outside)
next
  assume a: "bwd_idx \<le> int (length questions) \<and>
      (\<forall>k. 0 \<le> k \<and> k < bwd_idx \<longrightarrow> skipped pyeval ctx (questions ! nat k))"
  show "find_next_valid_question pyeval bwd_idx questions ctx (- 1) = Some (Inr 0)"
    unfolding find_next_valid_question_def
    using a by (intro backward_all_skipped) simp_all
next
  show "find_next_valid_question pyeval 0 questions ctx (- 1) = Some (Inr 0)"
    unfolding find_next_valid_question_def by (simp add: find_next_loop_outside)
next
  fix j
  assume "find_next_valid_question pyeval bwd_idx questions ctx (- 1) = Some (Inr j)"
  then show "0 \<le> j"
    unfolding find_next_valid_question_def by (rule backward_nonneg)
qed

text \<open>
  The theorem at a question set in which both questions are skipped: forward from 0 the
  scan returns 2, backward from 1 it returns 0.
\<close>

theorem find_next_valid_question_boundaries_witness:
  "skipped cmp_eval all_skipped_context (all_skipped_questions ! 1)
   \<and> find_next_valid_question cmp_eval 0 all_skipped_questions all_skipped_context 1
        = Some (Inr (int (length all_skipped_questions)))
   \<and> skipped cmp_eval all_skipped_context (all_skipped_questions ! 0)
   \<and> find_next_valid_question cmp_eval 1 all_skipped_questions all_skipped_context (- 1)
        = Some (Inr 0)"
proof -
  have len: "int (length all_skipped_questions) = 2"
    by (simp add: all_skipped_questions_def)
  have h1: "- 1 \<le> (0::int) \<and> 0 < int (length all_skipped_questions) \<and>
      (\<forall>k. 0 < k \<and> k < int (length all_skipped_questions)
         \<longrightarrow> skipped cmp_eval all_skipped_context (all_skipped_questions ! nat k))"
  proof (intro conjI allI impI)
    fix k :: int assume "0 < k \<and> k < int (length all_skipped_questions)"
    then have "k = 1" using len by linarith
    then show "skipped cmp_eval all_skipped_context (all_skipped_questions ! nat k)"
      using all_skipped_skipped(2) by simp
  qed (simp_all add: len)
  have h2: "1 \<le> int (length all_skipped_questions) \<and>
      (\<forall>k. 0 \<le> k \<and> k < 1
         \<longrightarrow> skipped cmp_eval all_skipped_context (all_skipped_questions ! nat k))"
  proof (intro conjI allI impI)
    fix k :: int assume "0 \<le> k \<and> k < 1"
    then have "k = 0" by linarith
    then show "skipped cmp_eval all_skipped_context (all_skipped_questions ! nat k)"
      using all_skipped_skipped(1) by simp
  qed (simp add: len)
  note b = find_next_valid_question_boundaries
             [of 0 all_skipped_questions cmp_eval all_skipped_context 1]
  note r1 = b [THEN conjunct1, THEN mp, OF h1]
  note r2 = b [THEN conjunct2, THEN conjunct2, THEN conjunct1, THEN mp, OF h2]
  have s1: "skipped cmp_eval all_skipped_context (all_skipped_questions ! 1)"
    using all_skipped_skipped(2) by simp
  show ?thesis by (rule conjI [OF s1 conjI [OF r1 conjI [OF all_skipped_skipped(1) r2]]])
qed

section \<open>Scenario B: landing index and progress\<close>

declare display_loop.simps [simp del]

lemma q1_is_no_nonempty: "q1_is_no \<noteq> []"
  by (simp add: q1_is_no_def)

lemma scenario_b_build:
  "build_context scenario_b_questions scenario_b_args Map.empty = Inr scenario_b_context"
  by (simp add: scenario_b_questions_def scenario_b_args_def scenario_b_context_def
      plain_question_def)

lemma three_questions:
  assumes "length (questions :: question list) = 3"
  obtains a b c where "questions = [a, b, c]"
proof -
  from assms obtain a r1 where 1: "questions = a # r1" "length r1 = 2"
    by (cases questions) simp_all
  then obtain b r2 where 2: "r1 = b # r2" "length r2 = 1" by (cases r1) simp_all
  then obtain c where "r2 = [c]" by (cases r2) simp_all
  with 1 2 show ?thesis using that by simp
qed

lemma scenario_b_eval: "cmp_eval q1_is_no scenario_b_context = Inr (VBool True)"
  by (simp add: scenario_b_context_def q1_is_no_def cmp_eval_simps)

text \<open>
  Claim C2, as amended. In a set of three questions whose second question has
  \<open>skip_if = "q1 == 'no'"\<close>, evaluating true under the context built from the submitted
  values, and whose other questions have no \<open>skip_if\<close>, \<open>find_next_valid_question\<close> from
  index 0 with direction \<open>+1\<close> returns index 2, and \<open>update_question_display\<close> called on
  that index keeps it and shows the progress 2 of 2: \<open>current_valid\<close> counts the eligible
  questions among the indices 0 to 2, which are the questions 0 and 2, and
  \<open>total_valid\<close> counts the same two questions.
\<close>

theorem scenario_b_landing_progress:
  assumes "length questions = 3"
    and "skip_if (questions ! 0) = None"
    and "skip_if (questions ! 1) = Some q1_is_no"
    and "skip_if (questions ! 2) = None"
    and "build_context questions args Map.empty = Inr ctx"
    and "pyeval q1_is_no ctx = Inr (VBool True)"
  shows "find_next_valid_question pyeval 0 questions ctx 1 = Some (Inr 2)
         \<and> (\<exists>u. update_question_display pyeval questions 2 args = Inr u
                \<and> current_question_idx u = 2
                \<and> next_btn u = (True, ProgressLabel 2 2))
         \<and> current_valid pyeval ctx questions 2 = Inr 2
         \<and> total_valid pyeval ctx questions = Inr 2"
proof -
  from assms(1) obtain a b c where q: "questions = [a, b, c]" by (rule three_questions)
  have sa: "skip_if a = None" and sb: "skip_if b = Some q1_is_no" and sc: "skip_if c = None"
    using assms(2,3,4) by (simp_all add: q)
  have ev: "evaluate_skip_if pyeval q1_is_no ctx = Inr True"
    using assms(6) by (simp add: evaluate_skip_if_def)
  have fwd: "find_next_valid_question pyeval 0 questions ctx 1 = Some (Inr 2)"
    by (simp add: find_next_valid_question_def find_next_loop.simps q sa sb sc ev)
  have cur: "current_valid pyeval ctx questions 2 = Inr 2"
    by (simp add: current_valid_def py_slice_to_def q sa sb sc ev)
  have tot: "total_valid pyeval ctx questions = Inr 2"
    by (simp add: total_valid_def q sa sb sc ev)
  have disp: "display_loop pyeval questions ctx 2 = Inr 2"
    by (subst display_loop.simps) (simp add: q sc)
  have range: "[nat (max 0 (2 - 1)) ..< length questions] = [1, 2]"
    by (simp add: q upt_rec)
  obtain u0 where rows: "update_rows pyeval ctx questions args 2 2 [1, 2] no_updates = Inr u0"
    by (simp add: q sb sc ev is_condition_met_def q1_is_no_nonempty Let_def)
  have "update_question_display pyeval questions 2 args =
          Inr (u0\<lparr>prev_btn := True, next_btn := (True, ProgressLabel 2 2),
                  current_question_idx := 2\<rparr>)"
    unfolding update_question_display_def
    by (simp only: assms(5) sum.case disp Let_def range rows tot cur) (simp add: q)
  then show ?thesis using fwd cur tot by simp
qed

text \<open>The theorem at scenario B, with the answer \<open>'no'\<close> to the first question.\<close>

theorem scenario_b_landing_progress_witness:
  "find_next_valid_question cmp_eval 0 scenario_b_questions scenario_b_context 1
     = Some (Inr 2)
   \<and> (\<exists>u. update_question_display cmp_eval scenario_b_questions 2 scenario_b_args = Inr u
          \<and> current_question_idx u = 2
          \<and> next_btn u = (True, ProgressLabel 2 2))
   \<and> current_valid cmp_eval scenario_b_context scenario_b_questions 2 = Inr 2
   \<and> total_valid cmp_eval scenario_b_context scenario_b_questions = Inr 2"
proof -
  have h1: "length scenario_b_questions = 3"
    and h2: "skip_if (scenario_b_questions ! 0) = None"
    and h3: "skip_if (scenario_b_questions ! 1) = Some q1_is_no"
    and h4: "skip_if (scenario_b_questions ! 2) = None"
    by (simp_all add: scenario_b_questions_def plain_question_def)
  show ?thesis
    by (rule scenario_b_landing_progress
          [where questions = scenario_b_questions and args = scenario_b_args
             and ctx = scenario_b_context and pyeval = cmp_eval,
           OF h1 h2 h3 h4 scenario_b_build scenario_b_eval])
qed

text \<open>
  Claim C2 as stated fails: at the landing index 2 of scenario B the count
  \<open>current_valid\<close> is 2, not 1, and the label of the next button shows 2 of 2.
\<close>

theorem scenario_b_progress_counterexample:
  "find_next_valid_question cmp_eval 0 scenario_b_questions scenario_b_context 1
     = Some (Inr 2)
   \<and> build_context scenario_b_questions scenario_b_args Map.empty = Inr scenario_b_context
   \<and> current_valid cmp_eval scenario_b_context scenario_b_questions 2 = Inr 2
   \<and> current_valid cmp_eval scenario_b_context scenario_b_questions 2 \<noteq> Inr 1
   \<and> total_valid cmp_eval scenario_b_context scenario_b_questions = Inr 2
   \<and> map_sum id next_btn
        (update_question_display cmp_eval scenario_b_questions 2 scenario_b_args)
       = Inr (True, ProgressLabel 2 2)"
proof -
  have ev: "evaluate_skip_if cmp_eval q1_is_no scenario_b_context = Inr True"
    by (simp add: evaluate_skip_if_def scenario_b_eval)
  have cur: "current_valid cmp_eval scenario_b_context scenario_b_questions 2 = Inr 2"
    by (simp add: current_valid_def py_slice_to_def scenario_b_questions_def
        plain_question_def ev)
  have tot: "total_valid cmp_eval scenario_b_context scenario_b_questions = Inr 2"
    by (simp add: total_valid_def scenario_b_questions_def plain_question_def ev)
  have disp: "display_loop cmp_eval scenario_b_questions scenario_b_context 2 = Inr 2"
    by (subst display_loop.simps) (simp add: scenario_b_questions_def plain_question_def)
  have range: "[nat (max 0 (2 - 1)) ..< length scenario_b_questions] = [1, 2]"
    by (simp add: scenario_b_questions_def upt_rec)
  obtain u0 where rows: "update_rows cmp_eval scenario_b_context scenario_b_questions
      scenario_b_args 2 2 [1, 2] no_updates = Inr u0"
    by (simp add: scenario_b_questions_def plain_question_def ev is_condition_met_def
        q1_is_no_nonempty Let_def)
  have upd: "update_question_display cmp_eval scenario_b_questions 2 scenario_b_args =
          Inr (u0\<lparr>prev_btn := True, next_btn := (True, ProgressLabel 2 2),
                  current_question_idx := 2\<rparr>)"
    unfolding update_question_display_def
    by (simp only: scenario_b_build sum.case disp Let_def range rows tot cur)
       (simp add: scenario_b_questions_def)
  have fwd: "find_next_valid_question cmp_eval 0 scenario_b_questions scenario_b_context 1
     = Some (Inr 2)"
    by (simp add: find_next_valid_question_def find_next_loop.simps scenario_b_questions_def
        plain_question_def ev)
  show ?thesis using fwd cur tot by (simp add: scenario_b_build upd)
qed

section \<open>Progress accounting\<close>

lemma count_valid_append:
  "count_valid pyeval ctx (xs @ ys) = Inr n \<Longrightarrow>
   \<exists>a b. count_valid pyeval ctx xs = Inr a \<and> count_valid pyeval ctx ys = Inr b \<and> n = a + b"
proof (induction xs arbitrary: n)
  case Nil
  then show ?case by simp
next
  case (Cons q xs)
  from Cons.prems obtain valid m where
    v: "(case skip_if q of None \<Rightarrow> Inr True
         | Some condition \<Rightarrow>
             (case evaluate_skip_if pyeval condition ctx of
                Inl e \<Rightarrow> Inl e | Inr skip \<Rightarrow> Inr (\<not> skip))) = Inr valid"
    and m: "count_valid pyeval ctx (xs @ ys) = Inr m"
    and n: "n = (if valid then 1 else 0) + m"
    by (auto split: sum.splits)
  from Cons.IH [OF m] obtain a b where
    "count_valid pyeval ctx xs = Inr a" "count_valid pyeval ctx ys = Inr b" "m = a + b"
    by blast
  then show ?case using v n by simp
qed

lemma count_valid_take:
  assumes "count_valid pyeval ctx xs = Inr n"
  shows "\<exists>a. count_valid pyeval ctx (take k xs) = Inr a \<and> a \<le> n"
proof -
  have "count_valid pyeval ctx (take k xs @ drop k xs) = Inr n" using assms by simp
  from count_valid_append [OF this] show ?thesis by auto
qed

text \<open>
  Claim C8. For a fixed context and question set on which the count \<open>total_valid\<close> is
  computed, the count \<open>current_valid\<close> is computed at every display index as well; over
  the display indices from 0 on it does not decrease when the display index grows, and it
  never exceeds \<open>total_valid\<close>.
\<close>

theorem progress_monotone:
  assumes "total_valid pyeval ctx questions = Inr t"
    and "0 \<le> d1" and "d1 \<le> d2"
  shows "\<exists>c1 c2. current_valid pyeval ctx questions d1 = Inr c1
           \<and> current_valid pyeval ctx questions d2 = Inr c2
           \<and> c1 \<le> c2 \<and> c2 \<le> t"
proof -
  have tot: "count_valid pyeval ctx questions = Inr t"
    using assms(1) by (simp add: total_valid_def)
  from count_valid_take [OF tot, of "nat (d2 + 1)"] obtain c2 where
    c2: "count_valid pyeval ctx (take (nat (d2 + 1)) questions) = Inr c2" and le2: "c2 \<le> t"
    by blast
  from count_valid_take [OF c2, of "nat (d1 + 1)"] obtain c1 where
    c1: "count_valid pyeval ctx (take (nat (d1 + 1)) (take (nat (d2 + 1)) questions)) = Inr c1"
    and le1: "c1 \<le> c2"
    by blast
  have "min (nat (d1 + 1)) (nat (d2 + 1)) = nat (d1 + 1)" using assms(2,3) by simp
  then have c1': "count_valid pyeval ctx (take (nat (d1 + 1)) questions) = Inr c1"
    using c1 by (simp add: take_take)
  show ?thesis
    using c1' c2 le1 le2 assms(2,3) by (simp add: current_valid_def py_slice_to_def)
qed

text \<open>The theorem at scenario B, for the display indices 0 and 2.\<close>

theorem progress_monotone_witness:
  "total_valid cmp_eval scenario_b_context scenario_b_questions = Inr 2
   \<and> (\<exists>c1 c2. current_valid cmp_eval scenario_b_context scenario_b_questions 0 = Inr c1
           \<and> current_valid cmp_eval scenario_b_context scenario_b_questions 2 = Inr c2
           \<and> c1 \<le> c2 \<and> c2 \<le> 2)"
proof -
  have ev: "evaluate_skip_if cmp_eval q1_is_no scenario_b_context = Inr True"
    by (simp add: evaluate_skip_if_def scenario_b_eval)
  have tot: "total_valid cmp_eval scenario_b_context scenario_b_questions = Inr 2"
    by (simp add: total_valid_def scenario_b_questions_def plain_question_def ev)
  have h2: "(0::int) \<le> 0" and h3: "(0::int) \<le> 2" by simp_all
  show ?thesis using tot progress_monotone [OF tot h2 h3] by (intro conjI)
qed

section \<open>The display projection\<close>

lemma update_question_display_Inr:
  assumes "update_question_display pyeval questions cur args = Inr u"
  obtains ctx d u0 t c where
    "build_context questions args Map.empty = Inr ctx"
    "display_loop pyeval questions ctx cur = Inr d"
    "update_rows pyeval ctx questions args cur d
       [nat (max 0 (d - 1)) ..< length questions] no_updates = Inr u0"
    "total_valid pyeval ctx questions = Inr t"
    "current_valid pyeval ctx questions d = Inr c"
    "u = u0\<lparr>prev_btn := (0 < d \<and> d < int (length questions)),
             next_btn := (d < int (length questions),
                if d < int (length questions)
                then (if 0 < t then ProgressLabel c t else PlainLabel) else DoneLabel),
             current_question_idx := d\<rparr>"
proof -
  from assms obtain ctx where 1: "build_context questions args Map.empty = Inr ctx"
    by (cases "build_context questions args Map.empty")
       (simp_all add: update_question_display_def)
  from assms 1 obtain d where 2: "display_loop pyeval questions ctx cur = Inr d"
    by (cases "display_loop pyeval questions ctx cur")
       (simp_all add: update_question_display_def)
  from assms 1 2 obtain u0 where 3: "update_rows pyeval ctx questions args cur d
       [nat (max 0 (d - 1)) ..< length questions] no_updates = Inr u0"
    by (cases "update_rows pyeval ctx questions args cur d
       [nat (max 0 (d - 1)) ..< length questions] no_updates")
       (simp_all add: update_question_display_def Let_def)
  from assms 1 2 3 obtain t where 4: "total_valid pyeval ctx questions = Inr t"
    by (cases "total_valid pyeval ctx questions")
       (simp_all add: update_question_display_def Let_def)
  from assms 1 2 3 4 obtain c where 5: "current_valid pyeval ctx questions d = Inr c"
    by (cases "current_valid pyeval ctx questions d")
       (simp_all add: update_question_display_def Let_def)
  from assms 1 2 3 4 5 have "u = u0\<lparr>prev_btn := (0 < d \<and> d < int (length questions)),
             next_btn := (d < int (length questions),
                if d < int (length questions)
                then (if 0 < t then ProgressLabel c t else PlainLabel) else DoneLabel),
             current_question_idx := d\<rparr>"
    by (simp add: update_question_display_def Let_def)
  with 1 2 3 4 5 show ?thesis using that by blast
qed

lemma display_loop_outside:
  "\<not> (0 \<le> d \<and> d < int (length questions)) \<Longrightarrow> display_loop pyeval questions ctx d = Inr d"
  by (subst display_loop.simps, subst if_not_P, assumption, rule refl)

lemma display_loop_met:
  "0 \<le> d \<Longrightarrow> d < int (length questions) \<Longrightarrow>
   is_condition_met pyeval ctx (questions ! nat d) = Inr True \<Longrightarrow>
   display_loop pyeval questions ctx d = Inr d"
  by (subst display_loop.simps)
     (auto simp: is_condition_met_def split: option.splits sum.splits if_splits)

lemma display_loop_not_met:
  "0 \<le> d \<Longrightarrow> d < int (length questions) \<Longrightarrow>
   is_condition_met pyeval ctx (questions ! nat d) = Inr False \<Longrightarrow>
   display_loop pyeval questions ctx d = display_loop pyeval questions ctx (d + 1)"
  by (subst display_loop.simps)
     (auto simp: is_condition_met_def split: option.splits sum.splits if_splits)

lemma display_loop_error:
  "0 \<le> d \<Longrightarrow> d < int (length questions) \<Longrightarrow>
   is_condition_met pyeval ctx (questions ! nat d) = Inl e \<Longrightarrow>
   display_loop pyeval questions ctx d = Inl e"
  by (subst display_loop.simps)
     (auto simp: is_condition_met_def split: option.splits sum.splits if_splits)

lemma display_loop_result:
  "display_loop pyeval questions ctx cur = Inr d \<Longrightarrow> 0 \<le> cur \<Longrightarrow>
   cur \<le> int (length questions) \<Longrightarrow>
   cur \<le> d \<and> d \<le> int (length questions)
   \<and> (\<forall>k. cur \<le> k \<and> k < d \<longrightarrow> is_condition_met pyeval ctx (questions ! nat k) = Inr False)
   \<and> (d < int (length questions) \<longrightarrow> is_condition_met pyeval ctx (questions ! nat d) = Inr True)"
proof (induction "nat (int (length questions) - cur)" arbitrary: cur rule: less_induct)
  case less
  show ?case
  proof (cases "cur < int (length questions)")
    case False
    then have "display_loop pyeval questions ctx cur = Inr cur"
      by (simp add: display_loop_outside)
    then have "d = cur" using less.prems(1) by simp
    then show ?thesis using False less.prems by auto
  next
    case True
    note inr = True
    show ?thesis
    proof (cases "is_condition_met pyeval ctx (questions ! nat cur)")
      case (Inl e)
      then show ?thesis using less.prems inr by (simp add: display_loop_error)
    next
      case (Inr met)
      show ?thesis
      proof (cases met)
        case True
        then have "display_loop pyeval questions ctx cur = Inr cur"
          using Inr less.prems inr by (simp add: display_loop_met)
        then have "d = cur" using less.prems(1) by simp
        then show ?thesis using Inr True inr less.prems by auto
      next
        case False
        then have nm: "is_condition_met pyeval ctx (questions ! nat cur) = Inr False"
          using Inr by simp
        then have "display_loop pyeval questions ctx (cur + 1) = Inr d"
          using less.prems inr by (simp add: display_loop_not_met)
        moreover have "nat (int (length questions) - (cur + 1)) < nat (int (length questions) - cur)"
          using inr by simp
        ultimately have ih: "cur + 1 \<le> d \<and> d \<le> int (length questions)
           \<and> (\<forall>k. cur + 1 \<le> k \<and> k < d \<longrightarrow> is_condition_met pyeval ctx (questions ! nat k) = Inr False)
           \<and> (d < int (length questions) \<longrightarrow> is_condition_met pyeval ctx (questions ! nat d) = Inr True)"
          using less.hyps [of "cur + 1"] less.prems inr by simp
        have "is_condition_met pyeval ctx (questions ! nat k) = Inr False"
          if "cur \<le> k \<and> k < d" for k
        proof (cases "k = cur")
          case True
          then show ?thesis using nm by simp
        next
          case False
          then have "cur + 1 \<le> k \<and> k < d" using that by linarith
          then show ?thesis using ih by blast
        qed
        then show ?thesis using ih by simp
      qed
    qed
  qed
qed

lemma update_rows_untouched:
  "update_rows pyeval ctx questions args cur d idxs u = Inr u' \<Longrightarrow>
   v \<notin> (\<lambda>i. variable (questions ! i)) ` set idxs \<Longrightarrow>
   rows u' v = rows u v \<and> widget_updates u' v = widget_updates u v"
proof (induction idxs arbitrary: u)
  case Nil
  then show ?case by simp
next
  case (Cons i idxs)
  from Cons.prems(1) obtain met where
    met: "is_condition_met pyeval ctx (questions ! i) = Inr met"
    by (cases "is_condition_met pyeval ctx (questions ! i)") simp_all
  define u1 where "u1 = u\<lparr>rows := (rows u)(variable (questions ! i) \<mapsto>
                              (if int i \<le> cur then met else False)),
                         widget_updates := (widget_updates u)
                           (variable (questions ! i) \<mapsto>
                              ((if int i \<le> cur then (int i = d \<and> met) else False), args ! i))\<rparr>"
  have step: "update_rows pyeval ctx questions args cur d idxs u1 = Inr u'"
    using Cons.prems(1) met by (simp add: u1_def Let_def)
  have "v \<notin> (\<lambda>i. variable (questions ! i)) ` set idxs" and ne: "v \<noteq> variable (questions ! i)"
    using Cons.prems(2) by auto
  from Cons.IH [OF step this(1)] ne show ?case by (simp add: u1_def)
qed

lemma update_rows_touched:
  "update_rows pyeval ctx questions args cur d idxs u = Inr u' \<Longrightarrow>
   distinct (map (\<lambda>i. variable (questions ! i)) idxs) \<Longrightarrow> i \<in> set idxs \<Longrightarrow>
   \<exists>met. is_condition_met pyeval ctx (questions ! i) = Inr met
     \<and> rows u' (variable (questions ! i)) = Some (int i \<le> cur \<and> met)
     \<and> widget_updates u' (variable (questions ! i))
         = Some (int i \<le> cur \<and> int i = d \<and> met, args ! i)"
proof (induction idxs arbitrary: u)
  case Nil
  then show ?case by simp
next
  case (Cons j idxs)
  from Cons.prems(1) obtain met where
    met: "is_condition_met pyeval ctx (questions ! j) = Inr met"
    by (cases "is_condition_met pyeval ctx (questions ! j)") simp_all
  define u1 where "u1 = u\<lparr>rows := (rows u)(variable (questions ! j) \<mapsto>
                              (if int j \<le> cur then met else False)),
                         widget_updates := (widget_updates u)
                           (variable (questions ! j) \<mapsto>
                              ((if int j \<le> cur then (int j = d \<and> met) else False), args ! j))\<rparr>"
  have step: "update_rows pyeval ctx questions args cur d idxs u1 = Inr u'"
    using Cons.prems(1) met by (simp add: u1_def Let_def)
  have dist: "distinct (map (\<lambda>i. variable (questions ! i)) idxs)"
    and fresh: "variable (questions ! j) \<notin> (\<lambda>i. variable (questions ! i)) ` set idxs"
    using Cons.prems(2) by auto
  show ?case
  proof (cases "i = j")
    case True
    from update_rows_untouched [OF step fresh]
    have "rows u' (variable (questions ! j)) = rows u1 (variable (questions ! j))"
      and "widget_updates u' (variable (questions ! j))
           = widget_updates u1 (variable (questions ! j))"
      by simp_all
    then show ?thesis using True met by (auto simp: u1_def)
  next
    case False
    then have "i \<in> set idxs" using Cons.prems(3) by simp
    from Cons.IH [OF step dist this] show ?thesis .
  qed
qed

lemma distinct_window:
  assumes "distinct (map variable questions)"
  shows "distinct (map (\<lambda>i. variable (questions ! i)) [s ..< length questions])"
proof -
  have "inj_on (\<lambda>i. variable (questions ! i)) {s ..< length questions}"
  proof (rule inj_onI)
    fix i j
    assume i: "i \<in> {s ..< length questions}" and j: "j \<in> {s ..< length questions}"
      and eq: "variable (questions ! i) = variable (questions ! j)"
    then show "i = j"
      using assms i j nth_eq_iff_index_eq [of "map variable questions" i j] by simp
  qed
  then show ?thesis by (simp add: distinct_map)
qed

lemma outside_window:
  assumes "distinct (map variable questions)" and "i < length questions" and "i < s"
  shows "variable (questions ! i) \<notin> (\<lambda>k. variable (questions ! k)) ` set [s ..< length questions]"
proof
  assume "variable (questions ! i) \<in> (\<lambda>k. variable (questions ! k)) ` set [s ..< length questions]"
  then obtain k where k: "s \<le> k" "k < length questions"
    and eq: "variable (questions ! i) = variable (questions ! k)" by auto
  then have "i = k"
    using assms(1,2) k nth_eq_iff_index_eq [of "map variable questions" i k] by simp
  then show False using assms(3) k by simp
qed

lemma count_valid_evaluates:
  "count_valid pyeval ctx qs = Inr n \<Longrightarrow> q \<in> set qs \<Longrightarrow> skip_if q = Some c \<Longrightarrow>
   \<exists>b. evaluate_skip_if pyeval c ctx = Inr b"
proof (induction qs arbitrary: n)
  case Nil
  then show ?case by simp
next
  case (Cons a qs)
  from Cons.prems(1) obtain m where m: "count_valid pyeval ctx qs = Inr m"
    by (auto split: sum.splits)
  show ?case
  proof (cases "q = a")
    case True
    then show ?thesis using Cons.prems(1,3) by (auto split: sum.splits)
  next
    case False
    then have "q \<in> set qs" using Cons.prems(2) by simp
    from Cons.IH [OF m this Cons.prems(3)] show ?thesis .
  qed
qed

lemma evaluate_empty_raises:
  "isl (pyeval [] ctx) \<Longrightarrow> evaluate_skip_if pyeval [] ctx \<noteq> Inr b"
  by (cases "pyeval [] ctx") (simp_all add: evaluate_skip_if_def)

lemma met_eligible:
  assumes "total_valid pyeval ctx questions = Inr t" and "isl (pyeval [] ctx)"
    and "q \<in> set questions"
  shows "(is_condition_met pyeval ctx q = Inr True) = eligible pyeval ctx q"
    and "(is_condition_met pyeval ctx q = Inr False) = skipped pyeval ctx q"
proof -
  have ev: "\<exists>b. evaluate_skip_if pyeval c ctx = Inr b" if "skip_if q = Some c" for c
    using count_valid_evaluates [OF _ assms(3) that] assms(1) by (simp add: total_valid_def)
  have ne: "c \<noteq> []" if "skip_if q = Some c" for c
    using ev [OF that] evaluate_empty_raises [where pyeval = pyeval and ctx = ctx, OF assms(2)]
    by auto
  show "(is_condition_met pyeval ctx q = Inr True) = eligible pyeval ctx q"
  proof (cases "skip_if q")
    case None
    then show ?thesis by (simp add: is_condition_met_def eligible_def)
  next
    case (Some c)
    from ev [OF Some] obtain b where "evaluate_skip_if pyeval c ctx = Inr b" by blast
    then show ?thesis using Some ne [OF Some] by (simp add: is_condition_met_def eligible_def)
  qed
  show "(is_condition_met pyeval ctx q = Inr False) = skipped pyeval ctx q"
  proof (cases "skip_if q")
    case None
    then show ?thesis by (simp add: is_condition_met_def skipped_def)
  next
    case (Some c)
    from ev [OF Some] obtain b where "evaluate_skip_if pyeval c ctx = Inr b" by blast
    then show ?thesis using Some ne [OF Some] by (simp add: is_condition_met_def skipped_def)
  qed
qed

text \<open>
  What the projection returns. For an input index in \<open>[0, N]\<close>, distinct variables, and
  an evaluator for which the empty text is an error (as it is for Python's \<open>eval\<close>),
  whenever \<open>update_question_display\<close> returns: the index it returns is the smallest
  index from the input index on whose question is eligible, or \<open>N\<close> when there is none.
  The rows are then written from the returned index minus one on, but the test that
  shows a row compares its index with the input index, not with the returned one: a
  question is marked interactive only if its index is the returned index and the
  returned index is the input index; every question after the input index whose index
  is at least the returned index minus one is written hidden and not interactive, the
  question at the returned index included; and the questions before the returned index
  minus one get no entry in the updates, also those after the input index.
\<close>

lemma update_question_display_resolves:
  assumes "0 \<le> current_idx" and "current_idx \<le> int (length questions)"
    and "distinct (map variable questions)"
    and "build_context questions args Map.empty = Inr ctx"
    and "isl (pyeval [] ctx)"
    and "update_question_display pyeval questions current_idx args = Inr u"
  shows "current_idx \<le> current_question_idx u
    \<and> current_question_idx u \<le> int (length questions)
    \<and> (current_question_idx u < int (length questions)
         \<longrightarrow> eligible pyeval ctx (questions ! nat (current_question_idx u)))
    \<and> (\<forall>k. current_idx \<le> k \<and> k < current_question_idx u
           \<longrightarrow> skipped pyeval ctx (questions ! nat k))
    \<and> (\<forall>i v. i < length questions
             \<and> widget_updates u (variable (questions ! i)) = Some (True, v)
           \<longrightarrow> int i = current_question_idx u \<and> int i = current_idx)
    \<and> (current_question_idx u = current_idx \<and> current_idx < int (length questions)
         \<longrightarrow> rows u (variable (questions ! nat current_idx)) = Some True
           \<and> widget_updates u (variable (questions ! nat current_idx))
               = Some (True, args ! nat current_idx))
    \<and> (\<forall>i. i < length questions \<and> current_idx < int i \<and> current_question_idx u - 1 \<le> int i
           \<longrightarrow> rows u (variable (questions ! i)) = Some False
             \<and> widget_updates u (variable (questions ! i)) = Some (False, args ! i))
    \<and> (\<forall>i. i < length questions \<and> int i < current_question_idx u - 1
           \<longrightarrow> rows u (variable (questions ! i)) = None
             \<and> widget_updates u (variable (questions ! i)) = None)"
proof -
  from assms(6) obtain ctx' d u0 t c where
    ctx': "build_context questions args Map.empty = Inr ctx'"
    and d: "display_loop pyeval questions ctx' current_idx = Inr d"
    and u0: "update_rows pyeval ctx' questions args current_idx d
       [nat (max 0 (d - 1)) ..< length questions] no_updates = Inr u0"
    and t: "total_valid pyeval ctx' questions = Inr t"
    and u: "u = u0\<lparr>prev_btn := (0 < d \<and> d < int (length questions)),
             next_btn := (d < int (length questions),
                if d < int (length questions)
                then (if 0 < t then ProgressLabel c t else PlainLabel) else DoneLabel),
             current_question_idx := d\<rparr>"
    by (rule update_question_display_Inr)
  have same: "ctx' = ctx" using ctx' assms(4) by simp
  note d = d [unfolded same] and u0 = u0 [unfolded same] and t = t [unfolded same]
  have idx: "current_question_idx u = d" and rows: "rows u = rows u0"
    and wid: "widget_updates u = widget_updates u0"
    using u by simp_all
  from display_loop_result [OF d assms(1,2)] have
    le: "current_idx \<le> d" and dN: "d \<le> int (length questions)"
    and before: "\<And>k. current_idx \<le> k \<and> k < d
                  \<Longrightarrow> is_condition_met pyeval ctx (questions ! nat k) = Inr False"
    and at: "d < int (length questions)
               \<Longrightarrow> is_condition_met pyeval ctx (questions ! nat d) = Inr True"
    by blast+
  define s where "s = nat (max 0 (d - 1))"
  have dist: "distinct (map (\<lambda>i. variable (questions ! i)) [s ..< length questions])"
    using assms(3) by (rule distinct_window)
  have touched: "\<exists>met. is_condition_met pyeval ctx (questions ! i) = Inr met
     \<and> rows u (variable (questions ! i)) = Some (int i \<le> current_idx \<and> met)
     \<and> widget_updates u (variable (questions ! i))
         = Some (int i \<le> current_idx \<and> int i = d \<and> met, args ! i)"
    if "s \<le> i" "i < length questions" for i
  proof -
    have "i \<in> set [s ..< length questions]" using that by simp
    from update_rows_touched [OF u0 [folded s_def] dist this] show ?thesis
      by (simp add: rows wid)
  qed
  have untouched: "rows u (variable (questions ! i)) = None
             \<and> widget_updates u (variable (questions ! i)) = None"
    if "i < length questions" "i < s" for i
  proof -
    from outside_window [OF assms(3) that]
    have "variable (questions ! i)
            \<notin> (\<lambda>k. variable (questions ! k)) ` set [s ..< length questions]" .
    from update_rows_untouched [OF u0 [folded s_def] this] show ?thesis
      by (simp add: rows wid no_updates_def)
  qed
  have p3: "eligible pyeval ctx (questions ! nat d)" if "d < int (length questions)"
  proof -
    have "nat d < length questions" using that le assms(1) by linarith
    then have "questions ! nat d \<in> set questions" by (rule nth_mem)
    from met_eligible(1) [OF t assms(5) this] at [OF that] show ?thesis by simp
  qed
  have p4: "skipped pyeval ctx (questions ! nat k)" if "current_idx \<le> k \<and> k < d" for k
  proof -
    have "nat k < length questions" using that dN assms(1) by linarith
    then have "questions ! nat k \<in> set questions" by (rule nth_mem)
    from met_eligible(2) [OF t assms(5) this] before [OF that] show ?thesis by simp
  qed
  have p5: "int i = d \<and> int i = current_idx"
    if "i < length questions \<and> widget_updates u (variable (questions ! i)) = Some (True, v)"
    for i v
  proof (cases "i < s")
    case True
    from untouched [OF _ True] that show ?thesis by simp
  next
    case False
    then have "s \<le> i" by simp
    from touched [OF this] that have "int i \<le> current_idx \<and> int i = d" by auto
    then show ?thesis using le by simp
  qed
  have p6: "rows u (variable (questions ! nat current_idx)) = Some True
           \<and> widget_updates u (variable (questions ! nat current_idx))
               = Some (True, args ! nat current_idx)"
    if "d = current_idx \<and> current_idx < int (length questions)"
  proof -
    have "s \<le> nat current_idx" using that assms(1) unfolding s_def by linarith
    moreover have "nat current_idx < length questions" using that assms(1) by linarith
    ultimately have "s \<le> nat current_idx" "nat current_idx < length questions" .
    from touched [OF this] obtain met where
      m: "is_condition_met pyeval ctx (questions ! nat current_idx) = Inr met"
      and r: "rows u (variable (questions ! nat current_idx))
                = Some (int (nat current_idx) \<le> current_idx \<and> met)"
      and w: "widget_updates u (variable (questions ! nat current_idx))
         = Some (int (nat current_idx) \<le> current_idx \<and> int (nat current_idx) = d \<and> met,
                 args ! nat current_idx)"
      by blast
    have "met" using at that m by simp
    then show ?thesis using r w that assms(1) by simp
  qed
  have p7: "rows u (variable (questions ! i)) = Some False
             \<and> widget_updates u (variable (questions ! i)) = Some (False, args ! i)"
    if "i < length questions \<and> current_idx < int i \<and> d - 1 \<le> int i" for i
  proof -
    have "s \<le> i" using that unfolding s_def by linarith
    moreover have "i < length questions" using that by simp
    ultimately have "s \<le> i" "i < length questions" .
    from touched [OF this] that show ?thesis by auto
  qed
  have p8: "rows u (variable (questions ! i)) = None
             \<and> widget_updates u (variable (questions ! i)) = None"
    if "i < length questions \<and> int i < d - 1" for i
  proof -
    have "i < s" using that unfolding s_def by linarith
    from untouched [OF _ this] that show ?thesis by simp
  qed
  show ?thesis
    unfolding idx using le dN p3 p4 p5 p6 p7 p8 by (intro conjI allI impI) blast+
qed

lemma gap_build: "build_context gap_questions gap_args Map.empty = Inr gap_context"
  by (simp add: gap_questions_def gap_args_def gap_context_def plain_question_def)

lemma gap_distinct: "distinct (map variable gap_questions)"
  by (simp add: gap_questions_def plain_question_def)

lemma cmp_eval_empty: "isl (cmp_eval [] ctx)"
  by (simp add: cmp_eval_def)

text \<open>
  An instance: the question set with a trailing eligible question, for the input
  index 0. The display resolves to index 3; the fourth question, after the input index,
  is written hidden; the second question gets no entry.
\<close>

lemma update_question_display_resolves_gap:
  "\<exists>u. update_question_display cmp_eval gap_questions 0 gap_args = Inr u
       \<and> current_question_idx u = 3
       \<and> eligible cmp_eval gap_context (gap_questions ! 3)
       \<and> skipped cmp_eval gap_context (gap_questions ! 1)
       \<and> rows u ''q4'' = Some False
       \<and> widget_updates u ''q4'' = Some (False, VStr ''x'')
       \<and> rows u ''q2'' = None"
proof -
  have ev: "map_sum id current_question_idx
              (update_question_display cmp_eval gap_questions 0 gap_args) = Inr 3"
    by code_simp
  then obtain u where u: "update_question_display cmp_eval gap_questions 0 gap_args = Inr u"
    and idx: "current_question_idx u = 3"
    by (cases "update_question_display cmp_eval gap_questions 0 gap_args") simp_all
  have h1: "(0::int) \<le> 0" and h2: "(0::int) \<le> int (length gap_questions)" by simp_all
  note T = update_question_display_resolves
             [where pyeval = cmp_eval and ctx = gap_context,
              OF h1 h2 gap_distinct gap_build cmp_eval_empty u, unfolded idx]
  have len: "length gap_questions = 4" by (simp add: gap_questions_def)
  have v3: "variable (gap_questions ! 3) = ''q4''" and v1: "variable (gap_questions ! 1) = ''q2''"
    and a3: "gap_args ! 3 = VStr ''x''"
    by (simp_all add: gap_questions_def gap_args_def plain_question_def)
  from T have "eligible cmp_eval gap_context (gap_questions ! nat 3)"
    by (simp add: len)
  then have e: "eligible cmp_eval gap_context (gap_questions ! 3)" by simp
  from T have "\<forall>k. (0::int) \<le> k \<and> k < 3 \<longrightarrow> skipped cmp_eval gap_context (gap_questions ! nat k)"
    by (elim conjE)
  then have "(0::int) \<le> 1 \<and> (1::int) < 3
               \<longrightarrow> skipped cmp_eval gap_context (gap_questions ! nat 1)"
    by (rule spec)
  then have s: "skipped cmp_eval gap_context (gap_questions ! 1)" by simp
  from T have "\<forall>i. i < length gap_questions \<and> 0 < int i \<and> 3 - 1 \<le> int i
           \<longrightarrow> rows u (variable (gap_questions ! i)) = Some False
             \<and> widget_updates u (variable (gap_questions ! i)) = Some (False, gap_args ! i)"
    by (elim conjE)
  then have "3 < length gap_questions \<and> 0 < int 3 \<and> 3 - 1 \<le> int 3
           \<longrightarrow> rows u (variable (gap_questions ! 3)) = Some False
             \<and> widget_updates u (variable (gap_questions ! 3)) = Some (False, gap_args ! 3)"
    by (rule spec)
  then have "rows u (variable (gap_questions ! 3)) = Some False
             \<and> widget_updates u (variable (gap_questions ! 3)) = Some (False, gap_args ! 3)"
    by (simp add: len)
  then have r4: "rows u ''q4'' = Some False" "widget_updates u ''q4'' = Some (False, VStr ''x'')"
    by (simp_all add: v3 a3)
  from T have "\<forall>i. i < length gap_questions \<and> int i < 3 - 1
           \<longrightarrow> rows u (variable (gap_questions ! i)) = None
             \<and> widget_updates u (variable (gap_questions ! i)) = None"
    by (elim conjE)
  then have "1 < length gap_questions \<and> int 1 < 3 - 1
           \<longrightarrow> rows u (variable (gap_questions ! 1)) = None
             \<and> widget_updates u (variable (gap_questions ! 1)) = None"
    by (rule spec)
  then have "rows u (variable (gap_questions ! 1)) = None" by (simp add: len)
  then have r2: "rows u ''q2'' = None" by (simp only: v1)
  show ?thesis using u idx e s r4 r2 by blast
qed

text \<open>
  Claim C10 fails in the code. On the question set with a trailing eligible question,
  where the answer \<open>x\<close> to the fourth question makes the first three questions skipped,
  \<open>update_question_display\<close> called with the input index 0 returns the navigation
  index 3, the smallest eligible index, as the claim says. But the question at that
  resolved index, \<open>q4\<close>, is returned hidden and not interactive, so that no question at
  all is interactive; and the question at index 1, \<open>q2\<close>, after the input index, is not
  hidden: the updates have no entry for its row, so a row that is visible on the screen
  stays visible. The loop over the rows starts at the resolved index minus one and
  decides interactivity by the resolved index, but it shows a row by comparing the index
  of the row with the input index.
\<close>

theorem update_question_display_hides_resolved_question:
  "map_sum id
     (\<lambda>u. (current_question_idx u, rows u ''q4'', widget_updates u ''q4'',
           map (\<lambda>v. map_option fst (widget_updates u v)) [''q1'', ''q2'', ''q3'', ''q4''],
           rows u ''q2'', apply_rows (\<lambda>v. True) u ''q2''))
     (update_question_display cmp_eval gap_questions 0 gap_args)
     = Inr (3, Some False, Some (False, VStr ''x''),
            [None, None, Some False, Some False], None, True)
   \<and> map variable gap_questions = [''q1'', ''q2'', ''q3'', ''q4'']
   \<and> map skip_if gap_questions = [Some q4_is_x, Some q4_is_x, Some q4_is_x, None]"
  by code_simp

text \<open>
  Such a call arises in a session. On the question set with a trailing eligible
  question the user answers the first three questions and advances to the fourth, with
  all four rows visible; the fourth answer \<open>x\<close> then makes the first three questions
  skipped, and going back from the fourth question returns the index 3 again, hides the
  third and the fourth row and leaves the first two rows, which are skipped questions,
  visible: the screen shows two skipped questions and not the current one.
\<close>

lemma gap_prev_index:
  "find_next_valid_question cmp_eval 3 gap_questions gap_context (- 1) = Some (Inr 0)"
  by code_simp

lemma gap_session_indices:
  "map_sum id current_question_idx
     (update_question_display cmp_eval gap_questions 0 [VNone, VNone, VNone, VNone]) = Inr 0
   \<and> returned_idx (gap_next 0 [VStr ''a'', VNone, VNone, VNone]) = Some 1
   \<and> returned_idx (gap_next 1 [VStr ''a'', VStr ''b'', VNone, VNone]) = Some 2
   \<and> returned_idx (gap_next 2 [VStr ''a'', VStr ''b'', VStr ''c'', VNone]) = Some 3
   \<and> map_option (map_sum id current_question_idx) (go_prev cmp_eval gap_questions 3 gap_args)
       = Some (Inr 3)"
  by code_simp

lemma gap_session_stale_rows:
  "map gap_screen_at_4 [''q1'', ''q2'', ''q3'', ''q4''] = [True, True, True, True]
   \<and> map gap_screen_back [''q1'', ''q2'', ''q3'', ''q4''] = [True, True, False, False]"
  by code_simp

section \<open>Scoring: the contract of the table\<close>

lemma check_rows_all:
  "check_rows to_str n i table = Inr () \<Longrightarrow> list_all (\<lambda>row. length row = n) table"
  by (induction table arbitrary: i) (auto split: if_splits)

lemma str_rows_length:
  "str_rows to_str table = Inr rows_str \<Longrightarrow> length rows_str = length table"
  by (induction table arbitrary: rows_str) (auto split: sum.splits)

lemma python_scoring_body_rectangular:
  assumes "python_scoring_body to_str py_exec code inputs = Inr (md, table, options)"
  shows "rectangular table"
  using assms
  unfolding python_scoring_body_def
  by (auto split: sum.splits option.splits pyval.splits list.splits if_splits 
      simp: rectangular_def dest!: check_rows_all str_rows_length)

lemma execute_scoring_python_rectangular:
  assumes "execute_scoring to_str py_exec r_call ''python'' code inputs = Inr (md, table, options)"
  shows "rectangular table"
proof -
  from assms have "python_scoring_body to_str py_exec code inputs = Inr (md, table, options)"
    by (simp add: execute_scoring_def execute_scoring_python_def split: sum.splits)
  then show ?thesis by (rule python_scoring_body_rectangular)
qed

text \<open>
  Claim C4 holds for the Python path (the lemmas above: a table returned by
  \<open>execute_scoring\<close> for \<open>python\<close> is rectangular) and fails for the R path, which
  converts the table and returns it unchecked. At an R result whose table has rows of
  unequal length, and at one whose table is empty, \<open>execute_scoring\<close> for \<open>r\<close>
  returns the table instead of raising.
\<close>

theorem execute_scoring_r_unchecked_table:
  "execute_scoring to_str py_exec (\<lambda>code inputs. Inr ragged_r_result) ''r'' code inputs
     = Inr (to_str (Py (VStr ''Score'')),
            [[to_str (Py (VStr ''Item'')), to_str (Py (VStr ''Value''))],
             [to_str (Py (VStr ''only''))]],
            [(''include_md_in_pdf'', VBool True), (''include_data_in_pdf'', VBool True)])
   \<and> \<not> rectangular [[to_str (Py (VStr ''Item'')), to_str (Py (VStr ''Value''))],
                      [to_str (Py (VStr ''only''))]]
   \<and> execute_scoring to_str py_exec (\<lambda>code inputs. Inr empty_r_result) ''r'' code inputs
     = Inr (to_str (Py (VStr ''Score'')), [],
            [(''include_md_in_pdf'', VBool True), (''include_data_in_pdf'', VBool True)])
   \<and> \<not> rectangular []"
  by (simp add: execute_scoring_def execute_scoring_r_def ragged_r_result_def
      empty_r_result_def r_pdf_options_def r_option_def rectangular_def upt_rec)

section \<open>The flow controller: an unanswered question\<close>

text \<open>
  Claim C7 fails on a question whose \<open>skip_if\<close> holds under the submitted values: the
  first question has no default and its answer is empty, so \<open>go_next\<close> warns that the
  question is unanswered, but the projection it returns resolves the index again and
  the navigation index becomes 1 instead of staying 0.
\<close>

theorem go_next_empty_answer_moves_on:
  "map_option (\<lambda>(ws, r). (ws, map_sum id current_question_idx r))
     (go_next (scenario_runtime (Inr VNone)) self_skip_questions ''python'' [] None 0
        self_skip_args)
     = Some ([unanswered_warning (self_skip_questions ! 0)], Inr 1)
   \<and> \<not> has_default (self_skip_questions ! 0) \<and> is_empty (self_skip_args ! 0)"
  by code_simp

section \<open>The flow controller: the terminal step\<close>

lemma py_index_bounds:
  assumes "py_index xs i = Inr x"
  shows "- int (length xs) \<le> i \<and> i < int (length xs) \<and> (0 \<le> i \<longrightarrow> x = xs ! nat i)"
  using assms by (auto simp: py_index_def split: if_splits)

lemma forward_terminal:
  assumes "py_index questions current_idx = Inr q"
    and "find_next_valid_question pyeval current_idx questions ctx 1 = Some (Inr new_idx)"
    and "int (length questions) \<le> new_idx"
  shows "new_idx = int (length questions)"
proof -
  from py_index_bounds [OF assms(1)] have lo: "- int (length questions) \<le> current_idx"
    and hi: "current_idx < int (length questions)" by simp_all
  show ?thesis
  proof (cases "0 \<le> current_idx + 1")
    case True
    from forward_scan [OF True, of pyeval questions ctx]
    obtain r where r: "find_next_loop pyeval questions ctx 1 (current_idx + 1) = Some r"
      and full: "\<forall>j. r = Inr j \<longrightarrow>
        current_idx + 1 \<le> j \<and> (\<forall>k. current_idx + 1 \<le> k \<and> k < j \<and> k < int (length questions) \<longrightarrow> skipped pyeval ctx (questions ! nat k)) \<and>
        ((j < int (length questions) \<and> eligible pyeval ctx (questions ! nat j))
         \<or> (j = max (current_idx + 1) (int (length questions))))"
      by (elim exE conjE)
    have "r = Inr new_idx" using r assms(2) by (simp add: find_next_valid_question_def)
    from full [rule_format, OF this] have
      "(new_idx < int (length questions) \<and> eligible pyeval ctx (questions ! nat new_idx))
         \<or> (new_idx = max (current_idx + 1) (int (length questions)))"
      by (elim conjE)
    then have "new_idx = max (current_idx + 1) (int (length questions))"
      using assms(3) by linarith
    then show ?thesis using hi by simp
  next
    case False
    then have "find_next_loop pyeval questions ctx 1 (current_idx + 1) = Some (Inr 0)"
      using hi by (simp add: find_next_loop_outside)
    then have "new_idx = 0" using assms(2) by (simp add: find_next_valid_question_def)
    then show ?thesis using assms(3) hi lo by linarith
  qed
qed

lemma go_next_passes_checks:
  assumes "py_index args current_idx = Inr current_value"
    and "py_index questions current_idx = Inr current_question"
    and "has_default current_question \<or> \<not> is_empty current_value"
    and "build_context questions args Map.empty = Inr ctx"
    and "valid_if current_question = None
         \<or> (\<exists>c. valid_if current_question = Some c
                \<and> evaluate_valid_if (rt_eval rt) c ctx = Inr True)"
  shows "go_next rt questions scoring_language scoring_code request current_idx args
         = go_next_advance rt questions scoring_language scoring_code request current_idx args"
proof -
  have answered: "\<not> (\<not> has_default current_question \<and> is_empty current_value)"
    using assms(3) by blast
  from assms(5) show ?thesis
  proof
    assume "valid_if current_question = None"
    then show ?thesis
      unfolding go_next_def by (simp add: assms(1,2) answered)
  next
    assume "\<exists>c. valid_if current_question = Some c
                \<and> evaluate_valid_if (rt_eval rt) c ctx = Inr True"
    then obtain c where "valid_if current_question = Some c"
      "evaluate_valid_if (rt_eval rt) c ctx = Inr True" by blast
    then show ?thesis
      unfolding go_next_def by (simp add: assms(1,2,4) answered)
  qed
qed

text \<open>
  Claim C5. When \<open>go_next\<close> passes the two checks of the current answer, the scan
  reaches the terminal index and the projection at that index is computed, \<open>go_next\<close>
  returns with the navigation index \<open>N\<close>, whatever the scoring and the report do. If
  the scoring or the report generation raises, the result panel and the PDF button are
  hidden and the error box shows the text of the exception; if both succeed, the result
  panel shows the scoring markdown, the PDF button offers the report and the error box
  is hidden.
\<close>

theorem go_next_terminal:
  assumes "py_index args current_idx = Inr current_value"
    and "py_index questions current_idx = Inr current_question"
    and "has_default current_question \<or> \<not> is_empty current_value"
    and "build_context questions args Map.empty = Inr ctx"
    and "valid_if current_question = None
         \<or> (\<exists>c. valid_if current_question = Some c
                \<and> evaluate_valid_if (rt_eval rt) c ctx = Inr True)"
    and "find_next_valid_question (rt_eval rt) current_idx questions ctx 1 = Some (Inr new_idx)"
    and "int (length questions) \<le> new_idx"
    and "update_question_display (rt_eval rt) questions new_idx args = Inr u0"
  shows "\<exists>u. go_next rt questions scoring_language scoring_code request current_idx args
               = Some ([], Inr u)
           \<and> current_question_idx u = int (length questions)
           \<and> (case scoring_and_report rt questions scoring_language scoring_code request ctx of
                 Inl e \<Rightarrow>
                   result_output u = Some (None, False)
                   \<and> pdf_download u = Some (None, False)
                   \<and> error_output u = Some (Some (exn_str e), True)
               | Inr (markdown_result, pdf_path) \<Rightarrow>
                   result_output u = Some (Some markdown_result, True)
                   \<and> pdf_download u = Some (Some pdf_path, True)
                   \<and> error_output u = Some (None, False))"
proof -
  have new: "new_idx = int (length questions)"
    using assms(2,6,7) by (rule forward_terminal)
  have idx0: "current_question_idx u0 = new_idx"
  proof -
    from assms(8) obtain ctx' d u1 t c where
      d: "display_loop (rt_eval rt) questions ctx' new_idx = Inr d"
      and u: "u0 = u1\<lparr>prev_btn := (0 < d \<and> d < int (length questions)),
             next_btn := (d < int (length questions),
                if d < int (length questions)
                then (if 0 < t then ProgressLabel c t else PlainLabel) else DoneLabel),
             current_question_idx := d\<rparr>"
      by (rule update_question_display_Inr)
    have "display_loop (rt_eval rt) questions ctx' new_idx = Inr new_idx"
      using new by (simp add: display_loop_outside)
    then have "d = new_idx" using d by simp
    then show ?thesis using u by simp
  qed
  have adv: "go_next rt questions scoring_language scoring_code request current_idx args
         = go_next_advance rt questions scoring_language scoring_code request current_idx args"
    using assms(1,2,3,4,5) by (rule go_next_passes_checks)
  note a6 = assms(6) [unfolded new] and a8 = assms(8) [unfolded new]
    and i0 = idx0 [unfolded new]
  show ?thesis
  proof (cases "scoring_and_report rt questions scoring_language scoring_code request ctx")
    case (Inl e)
    then show ?thesis
      unfolding adv go_next_advance_def
      using i0 by (simp add: assms(4) a6 a8)
  next
    case (Inr r)
    obtain markdown_result pdf_path where "r = (markdown_result, pdf_path)" by (cases r)
    then show ?thesis
      unfolding adv go_next_advance_def
      using i0 Inr by (simp add: assms(4) a6 a8)
  qed
qed

text \<open>
  The theorem at scenario E: the last question of scenario B is answered and the
  scoring function returns a table with rows of unequal length; the navigation index
  is 3, the result panel is hidden and an error is shown.
\<close>

theorem go_next_terminal_witness:
  "\<exists>u. go_next (scenario_runtime (Inr ragged_python_result)) scenario_b_questions
           ''python'' [] None 2 scenario_e_args = Some ([], Inr u)
       \<and> current_question_idx u = 3
       \<and> result_output u = Some (None, False)
       \<and> pdf_download u = Some (None, False)
       \<and> (\<exists>message. error_output u = Some (Some message, True))"
proof -
  let ?rt = "scenario_runtime (Inr ragged_python_result)"
  have h1: "py_index scenario_e_args 2 = Inr (VStr ''yes'')" by code_simp
  have h2: "py_index scenario_b_questions 2 = Inr (plain_question ''q3'' ''Question 3'')"
    by code_simp
  have h3: "has_default (plain_question ''q3'' ''Question 3'') \<or> \<not> is_empty (VStr ''yes'')"
    by code_simp
  have h4: "build_context scenario_b_questions scenario_e_args Map.empty
              = Inr scenario_e_context"
    by (simp add: scenario_b_questions_def scenario_e_args_def scenario_e_context_def
        plain_question_def)
  have h5: "valid_if (plain_question ''q3'' ''Question 3'') = None
         \<or> (\<exists>c. valid_if (plain_question ''q3'' ''Question 3'') = Some c
                \<and> evaluate_valid_if (rt_eval ?rt) c scenario_e_context = Inr True)"
    by (simp add: plain_question_def)
  have h6: "find_next_valid_question (rt_eval ?rt) 2 scenario_b_questions
              scenario_e_context 1 = Some (Inr 3)"
    by code_simp
  have h7: "int (length scenario_b_questions) \<le> 3" by code_simp
  have "map_sum id (\<lambda>u. ())
          (update_question_display (rt_eval ?rt) scenario_b_questions 3 scenario_e_args)
        = Inr ()"
    by code_simp
  then obtain u0 where h8: "update_question_display (rt_eval ?rt) scenario_b_questions 3
      scenario_e_args = Inr u0"
    by (cases "update_question_display (rt_eval ?rt) scenario_b_questions 3 scenario_e_args")
       simp_all
  have "map_sum (\<lambda>e. ()) id
          (scoring_and_report ?rt scenario_b_questions ''python'' [] None scenario_e_context)
        = Inl ()"
    by code_simp
  then obtain e where sc: "scoring_and_report ?rt scenario_b_questions ''python'' [] None
      scenario_e_context = Inl e"
    by (cases "scoring_and_report ?rt scenario_b_questions ''python'' [] None
          scenario_e_context") simp_all
  have len: "int (length scenario_b_questions) = 3" by code_simp
  from go_next_terminal [OF h1 h2 h3 h4 h5 h6 h7 h8, of "''python''" "[]" None]
  show ?thesis unfolding sc len by auto
qed

section \<open>The flow controller: the validity check\<close>

lemma display_loop_eligible:
  assumes "0 \<le> d" and "d < int (length questions)"
    and "eligible pyeval ctx (questions ! nat d)"
  shows "display_loop pyeval questions ctx d = Inr d"
proof -
  have "is_condition_met pyeval ctx (questions ! nat d) = Inr True"
    using assms(3) by (auto simp: eligible_def is_condition_met_def split: option.splits)
  with assms(1,2) show ?thesis by (rule display_loop_met)
qed

lemma update_question_display_eligible:
  assumes "0 \<le> current_idx" and "py_index questions current_idx = Inr q"
    and "build_context questions args Map.empty = Inr ctx"
    and "eligible pyeval ctx q"
    and "update_question_display pyeval questions current_idx args = Inr u"
  shows "current_question_idx u = current_idx"
proof -
  from py_index_bounds [OF assms(2)] assms(1) have hi: "current_idx < int (length questions)"
    and q: "q = questions ! nat current_idx" by simp_all
  from assms(5) obtain ctx' d u1 t c where
    ctx': "build_context questions args Map.empty = Inr ctx'"
    and d: "display_loop pyeval questions ctx' current_idx = Inr d"
    and u: "u = u1\<lparr>prev_btn := (0 < d \<and> d < int (length questions)),
             next_btn := (d < int (length questions),
                if d < int (length questions)
                then (if 0 < t then ProgressLabel c t else PlainLabel) else DoneLabel),
             current_question_idx := d\<rparr>"
    by (rule update_question_display_Inr)
  have "ctx' = ctx" using ctx' assms(3) by simp
  then have "display_loop pyeval questions ctx' current_idx = Inr current_idx"
    using display_loop_eligible [OF assms(1) hi] assms(4) q by simp
  then have "d = current_idx" using d by simp
  then show ?thesis using u by simp
qed

lemma go_next_unanswered:
  assumes "py_index args current_idx = Inr current_value"
    and "py_index questions current_idx = Inr current_question"
    and "\<not> has_default current_question" and "is_empty current_value"
  shows "go_next rt questions scoring_language scoring_code request current_idx args
         = Some ([unanswered_warning current_question],
                 update_question_display (rt_eval rt) questions current_idx args)"
  unfolding go_next_def by (simp add: assms)

text \<open>
  Claim C6, as amended. For a question that declares a \<open>valid_if\<close> and whose answer
  passes the check of emptiness (the question has a default, or the answer is not
  empty): when the \<open>valid_if\<close> evaluates false, \<open>go_next\<close> warns with the
  \<open>invalid_message\<close> of the question if there is one and with the generic message
  otherwise, and returns the projection of the current index; when the evaluation of
  the \<open>valid_if\<close> fails, it warns with the error and returns the same projection. The
  navigation index of that projection is the current index whenever the current question
  is eligible under the submitted values.
\<close>

theorem go_next_valid_if_gate:
  assumes "py_index args current_idx = Inr current_value"
    and "py_index questions current_idx = Inr current_question"
    and "has_default current_question \<or> \<not> is_empty current_value"
    and "valid_if current_question = Some condition"
    and "build_context questions args Map.empty = Inr ctx"
  shows "(evaluate_valid_if (rt_eval rt) condition ctx = Inr False \<longrightarrow>
            go_next rt questions scoring_language scoring_code request current_idx args
            = Some ([invalid_warning current_question],
                    update_question_display (rt_eval rt) questions current_idx args))
       \<and> (\<forall>e. evaluate_valid_if (rt_eval rt) condition ctx = Inl e \<longrightarrow>
            go_next rt questions scoring_language scoring_code request current_idx args
            = Some ([validation_error_warning e],
                    update_question_display (rt_eval rt) questions current_idx args))
       \<and> (\<forall>message. invalid_message current_question = Some message \<longrightarrow>
            invalid_warning current_question = message)
       \<and> (invalid_message current_question = None \<longrightarrow>
            invalid_warning current_question = generic_invalid_warning current_question)
       \<and> (\<forall>u. 0 \<le> current_idx \<and> eligible (rt_eval rt) ctx current_question
               \<and> update_question_display (rt_eval rt) questions current_idx args = Inr u
             \<longrightarrow> current_question_idx u = current_idx)"
proof (intro conjI allI impI)
  have answered: "\<not> (\<not> has_default current_question \<and> is_empty current_value)"
    using assms(3) by blast
  {
    assume "evaluate_valid_if (rt_eval rt) condition ctx = Inr False"
    then show "go_next rt questions scoring_language scoring_code request current_idx args
            = Some ([invalid_warning current_question],
                    update_question_display (rt_eval rt) questions current_idx args)"
      unfolding go_next_def by (simp add: assms(1,2,4,5) answered)
  }
  {
    fix e
    assume "evaluate_valid_if (rt_eval rt) condition ctx = Inl e"
    then show "go_next rt questions scoring_language scoring_code request current_idx args
            = Some ([validation_error_warning e],
                    update_question_display (rt_eval rt) questions current_idx args)"
      unfolding go_next_def by (simp add: assms(1,2,4,5) answered)
  }
  {
    fix message
    assume "invalid_message current_question = Some message"
    then show "invalid_warning current_question = message"
      by (simp add: invalid_warning_def)
  }
  {
    assume "invalid_message current_question = None"
    then show "invalid_warning current_question = generic_invalid_warning current_question"
      by (simp add: invalid_warning_def)
  }
  {
    fix u
    assume a: "0 \<le> current_idx \<and> eligible (rt_eval rt) ctx current_question
               \<and> update_question_display (rt_eval rt) questions current_idx args = Inr u"
    then show "current_question_idx u = current_idx"
      using update_question_display_eligible [OF _ assms(2) assms(5)] by blast
  }
qed

text \<open>
  The theorem at scenario C: with the answer 10 the advance is rejected with the message
  \<open>Must be adult\<close> and the navigation index stays 0.
\<close>

theorem go_next_valid_if_gate_witness:
  "\<exists>u. go_next (scenario_runtime (Inr VNone)) scenario_c_questions ''python'' [] None 0
           scenario_c_args = Some ([''Must be adult''], Inr u)
       \<and> current_question_idx u = 0"
proof -
  let ?rt = "scenario_runtime (Inr VNone)"
  let ?q = "scenario_c_questions ! 0"
  have h1: "py_index scenario_c_args 0 = Inr (VInt 10)" by code_simp
  have h2: "py_index scenario_c_questions 0 = Inr ?q" by code_simp
  have h3: "has_default ?q \<or> \<not> is_empty (VInt 10)" by simp
  have h4: "valid_if ?q = Some age_is_adult"
    by (simp add: scenario_c_questions_def plain_question_def)
  have h5: "build_context scenario_c_questions scenario_c_args Map.empty
              = Inr scenario_c_context"
    by (simp add: scenario_c_questions_def scenario_c_args_def scenario_c_context_def
        plain_question_def)
  have ev: "evaluate_valid_if (rt_eval ?rt) age_is_adult scenario_c_context = Inr False"
    by code_simp
  have msg: "invalid_message ?q = Some ''Must be adult''"
    by (simp add: scenario_c_questions_def plain_question_def)
  have el: "eligible (rt_eval ?rt) scenario_c_context ?q"
    by (simp add: eligible_def scenario_c_questions_def plain_question_def)
  have "map_sum id (\<lambda>u. ())
          (update_question_display (rt_eval ?rt) scenario_c_questions 0 scenario_c_args)
        = Inr ()"
    by code_simp
  then obtain u where u: "update_question_display (rt_eval ?rt) scenario_c_questions 0
      scenario_c_args = Inr u"
    by (cases "update_question_display (rt_eval ?rt) scenario_c_questions 0 scenario_c_args")
       simp_all
  note T = go_next_valid_if_gate
             [where rt = ?rt and scoring_language = "''python''" and scoring_code = "[]"
                and request = None, OF h1 h2 h3 h4 h5]
  note go = T [THEN conjunct1, THEN mp, OF ev]
  note w = T [THEN conjunct2, THEN conjunct2, THEN conjunct1, THEN spec, THEN mp, OF msg]
  have pre: "(0::int) \<le> 0 \<and> eligible (rt_eval ?rt) scenario_c_context ?q
               \<and> update_question_display (rt_eval ?rt) scenario_c_questions 0
                    scenario_c_args = Inr u"
    using el u by simp
  note T [THEN conjunct2, THEN conjunct2, THEN conjunct2, THEN conjunct2, THEN spec,
          THEN mp, OF pre]
  then show ?thesis using go w u by simp
qed

text \<open>
  Claim C6 as stated fails on an empty answer: the \<open>valid_if\<close> of the question
  evaluates false under the submitted values and the question has an
  \<open>invalid_message\<close>, but the check of emptiness comes first and the warning is the one
  of the unanswered question.
\<close>

theorem go_next_valid_if_empty_counterexample:
  "evaluate_valid_if cmp_eval code_is_abc code_context = Inr False
   \<and> build_context code_questions code_args Map.empty = Inr code_context
   \<and> valid_if (code_questions ! 0) = Some code_is_abc
   \<and> invalid_message (code_questions ! 0) = Some ''Wrong code''
   \<and> map_option fst
        (go_next (scenario_runtime (Inr VNone)) code_questions ''python'' [] None 0 code_args)
       = Some [unanswered_warning (code_questions ! 0)]
   \<and> unanswered_warning (code_questions ! 0) \<noteq> ''Wrong code''"
proof -
  have 1: "evaluate_valid_if cmp_eval code_is_abc code_context = Inr False" by code_simp
  have 2: "build_context code_questions code_args Map.empty = Inr code_context"
    by (simp add: code_questions_def code_args_def code_context_def plain_question_def)
  have 3: "valid_if (code_questions ! 0) = Some code_is_abc"
    and 4: "invalid_message (code_questions ! 0) = Some ''Wrong code''"
    by (simp_all add: code_questions_def plain_question_def)
  have 5: "map_option fst
        (go_next (scenario_runtime (Inr VNone)) code_questions ''python'' [] None 0 code_args)
       = Some [unanswered_warning (code_questions ! 0)]"
    by code_simp
  have 6: "unanswered_warning (code_questions ! 0) \<noteq> ''Wrong code''"
    by (simp add: unanswered_warning_def)
  show ?thesis using 1 2 3 4 5 6 by (intro conjI)
qed

end
